theory Spec2Isabelle
  imports Complex_Main
begin

section \<open>Errors raised by the modelled code\<close>

text \<open>
  Every exception the modelled functions can raise is a constructor of one datatype; a
  function that may raise returns \<open>py_error + 'a\<close>, with \<open>Inl\<close> the exception.
  \<open>FuzzyMatchSuccess\<close> keeps the two keyword arguments handed to the message template,
  in the order \<open>source\<close>, \<open>target\<close>; the other parser exceptions keep their message.
\<close>

datatype py_error =
    KeyError
  | ZeroDivisionError
  | InvalidParam string
  | ArgumentMissing string
  | FuzzyMatchSuccess string string
  | SpecialOptionTriggered string
  | OtherError string


section \<open>util.py: LruCache\<close>

text \<open>
  The cache is an \<open>OrderedDict\<close>: an association list with the oldest entry first and
  the newest last. \<open>record_tbl\<close> is the \<open>record\<close> dictionary (time of the store and
  expiration, the clock reading being a parameter of \<open>set\<close>), \<open>size_priv\<close> is the
  private counter \<open>__size\<close>.
\<close>

record ('k, 'v) LruCache =
  max_size :: int
  cache :: "('k \<times> 'v) list"
  record_tbl :: "'k \<rightharpoonup> (nat \<times> int)"
  size_priv :: int

definition LruCache_init :: "int \<Rightarrow> ('k, 'v) LruCache" where
  "LruCache_init m = \<lparr>max_size = m, cache = [], record_tbl = Map.empty, size_priv = 0\<rparr>"

definition has :: "('k, 'v) LruCache \<Rightarrow> 'k \<Rightarrow> bool" where
  "has self key = (key \<in> fst ` set (cache self))"

text \<open>\<open>OrderedDict.move_to_end(key)\<close>: the entry leaves its place and becomes the last one.\<close>

definition move_to_end :: "('k \<times> 'v) list \<Rightarrow> 'k \<Rightarrow> ('k \<times> 'v) list" where
  "move_to_end od key =
     (case map_of od key of
        None \<Rightarrow> od
      | Some v \<Rightarrow> filter (\<lambda>kv. fst kv \<noteq> key) od @ [(key, v)])"

text \<open>\<open>OrderedDict.pop(key)\<close> on a key that is present.\<close>

definition od_pop :: "('k \<times> 'v) list \<Rightarrow> 'k \<Rightarrow> ('k \<times> 'v) list" where
  "od_pop od key = filter (\<lambda>kv. fst kv \<noteq> key) od"

text \<open>\<open>__getitem__\<close>: a hit moves the key to the end; a miss raises \<open>KeyError\<close>.\<close>

definition getitem :: "('k, 'v) LruCache \<Rightarrow> 'k \<Rightarrow> (py_error + 'v) \<times> ('k, 'v) LruCache" where
  "getitem self key =
     (if has self key
      then (case map_of (cache self) key of
              Some v \<Rightarrow> (Inr v, self\<lparr>cache := move_to_end (cache self) key\<rparr>)
            | None \<Rightarrow> (Inl KeyError, self))
      else (Inl KeyError, self))"

definition get :: "('k, 'v) LruCache \<Rightarrow> 'k \<Rightarrow> 'v \<Rightarrow> 'v \<times> ('k, 'v) LruCache" where
  "get self key dflt =
     (case getitem self key of
        (Inr v, self') \<Rightarrow> (v, self')
      | (Inl e, self') \<Rightarrow> (dflt, self'))"

text \<open>
  \<open>set\<close>. The first component of the result is the exception, if one is raised; the
  state is returned as the exception leaves it. The statements are kept in the source's
  order: store, count, evict the first entry when the counter exceeds \<open>max_size\<close>
  (\<open>record.pop\<close> raises \<open>KeyError\<close> on a key the record does not hold), then record.
\<close>

definition set_item ::
  "('k, 'v) LruCache \<Rightarrow> 'k \<Rightarrow> 'v \<Rightarrow> int \<Rightarrow> nat \<Rightarrow> py_error option \<times> ('k, 'v) LruCache" where
  "set_item self key val expiration now =
     (if has self key then (None, self)
      else
        let s1 = self\<lparr>cache := cache self @ [(key, val)]\<rparr>;
            s2 = s1\<lparr>size_priv := size_priv s1 + 1\<rparr>
        in if 0 < max_size s2 \<and> max_size s2 < size_priv s2
           then (case cache s2 of
                   [] \<Rightarrow> (Some KeyError, s2)
                 | (k, v) # rest \<Rightarrow>
                     let s3 = s2\<lparr>cache := rest\<rparr>
                     in (case record_tbl s3 k of
                           None \<Rightarrow> (Some KeyError, s3)
                         | Some r \<Rightarrow>
                             let s4 = s3\<lparr>record_tbl := (record_tbl s3)(k := None)\<rparr>;
                                 s5 = s4\<lparr>size_priv := size_priv s4 - 1\<rparr>
                             in (None, s5\<lparr>record_tbl := (record_tbl s5)(key \<mapsto> (now, expiration))\<rparr>)))
           else (None, s2\<lparr>record_tbl := (record_tbl s2)(key \<mapsto> (now, expiration))\<rparr>))"

definition delete :: "('k, 'v) LruCache \<Rightarrow> 'k \<Rightarrow> py_error option \<times> ('k, 'v) LruCache" where
  "delete self key =
     (if \<not> has self key then (Some KeyError, self)
      else
        let s1 = self\<lparr>cache := od_pop (cache self) key\<rparr>
        in (case record_tbl s1 key of
              None \<Rightarrow> (Some KeyError, s1)
            | Some r \<Rightarrow> (None, s1\<lparr>record_tbl := (record_tbl s1)(key := None)\<rparr>)))"

definition clear :: "('k, 'v) LruCache \<Rightarrow> ('k, 'v) LruCache" where
  "clear self = self\<lparr>cache := [], record_tbl := Map.empty\<rparr>"

text \<open>A caller's operations on one cache, and the state a sequence of them leaves.\<close>

datatype ('k, 'v) lru_op =
    OpSet 'k 'v int nat
  | OpGet 'k 'v
  | OpGetItem 'k
  | OpDelete 'k
  | OpClear

fun lru_step :: "('k, 'v) LruCache \<Rightarrow> ('k, 'v) lru_op \<Rightarrow> ('k, 'v) LruCache" where
  "lru_step s (OpSet k v e now) = snd (set_item s k v e now)"
| "lru_step s (OpGet k d) = snd (get s k d)"
| "lru_step s (OpGetItem k) = snd (getitem s k)"
| "lru_step s (OpDelete k) = snd (delete s k)"
| "lru_step s OpClear = clear s"

definition lru_run :: "('k, 'v) lru_op list \<Rightarrow> ('k, 'v) LruCache \<Rightarrow> ('k, 'v) LruCache" where
  "lru_run ops s = foldl lru_step s ops"

text \<open>
  The invariant of the reachable states: keys are distinct, the record holds exactly the
  cached keys, the counter never undercounts, and in a bounded cache it exceeds
  \<open>max_size\<close> only when the cache is empty.
\<close>

definition lru_inv :: "('k, 'v) LruCache \<Rightarrow> bool" where
  "lru_inv s \<longleftrightarrow>
     distinct (map fst (cache s)) \<and>
     dom (record_tbl s) = fst ` set (cache s) \<and>
     int (length (cache s)) \<le> size_priv s \<and>
     (0 < max_size s \<longrightarrow> size_priv s \<le> max_size s \<or> cache s = [])"

text \<open>
  The order of use, in the words of the specification: insertion and access. An operation
  uses a key when it is a \<open>set\<close> that inserts it (the key was absent) or a read, \<open>get\<close> or
  \<open>__getitem__\<close>, that finds it. A \<open>set\<close> of a key that is present returns at its first
  line and changes nothing, so it is no use; \<open>delete\<close> and \<open>clear\<close> use nothing.
  \<open>last_use\<close> runs the operations from the empty cache and gives every key the position
  in the sequence of the last operation that used it.
\<close>

fun uses_key :: "('k, 'v) LruCache \<Rightarrow> ('k, 'v) lru_op \<Rightarrow> 'k option" where
  "uses_key s (OpSet k v e now) = (if has s k then None else Some k)"
| "uses_key s (OpGet k d) = (if has s k then Some k else None)"
| "uses_key s (OpGetItem k) = (if has s k then Some k else None)"
| "uses_key s (OpDelete k) = None"
| "uses_key s OpClear = None"

definition stamp :: "('k \<rightharpoonup> nat) \<Rightarrow> nat \<Rightarrow> 'k option \<Rightarrow> ('k \<rightharpoonup> nat)" where
  "stamp u t used = (case used of None \<Rightarrow> u | Some k \<Rightarrow> u(k \<mapsto> t))"

fun use_log ::
  "('k, 'v) lru_op list \<Rightarrow> ('k, 'v) LruCache \<Rightarrow> nat \<Rightarrow> ('k \<rightharpoonup> nat) \<Rightarrow> ('k \<rightharpoonup> nat)" where
  "use_log [] s t u = u"
| "use_log (op # ops) s t u = use_log ops (lru_step s op) (Suc t) (stamp u t (uses_key s op))"

definition last_use :: "('k, 'v) lru_op list \<Rightarrow> int \<Rightarrow> ('k \<rightharpoonup> nat)" where
  "last_use ops m = use_log ops (LruCache_init m) 0 Map.empty"

text \<open>
  The least recently used entry of a cache: a cached key whose last use lies before the
  last use of every other cached key.
\<close>

definition used_before :: "('k \<rightharpoonup> nat) \<Rightarrow> 'k \<Rightarrow> 'k \<Rightarrow> bool" where
  "used_before u k k' =
     (case u k of
        None \<Rightarrow> False
      | Some a \<Rightarrow> (case u k' of None \<Rightarrow> False | Some b \<Rightarrow> a < b))"

definition least_recently_used :: "('k \<rightharpoonup> nat) \<Rightarrow> ('k \<times> 'v) list \<Rightarrow> 'k \<Rightarrow> bool" where
  "least_recently_used u od k \<longleftrightarrow>
     k \<in> fst ` set od \<and> list_all (\<lambda>kv. fst kv = k \<or> used_before u k (fst kv)) od"

text \<open>
  The invariant that ties the order of the \<open>OrderedDict\<close> to the uses: every cached key
  has a last use before the current position, and the entries stand in the order of
  their last uses.
\<close>

definition use_ordered :: "('k \<rightharpoonup> nat) \<Rightarrow> nat \<Rightarrow> ('k \<times> 'v) list \<Rightarrow> bool" where
  "use_ordered u t od \<longleftrightarrow>
     list_all (\<lambda>kv. case u (fst kv) of None \<Rightarrow> False | Some n \<Rightarrow> n < t) od \<and>
     sorted_wrt (\<lambda>a b. used_before u (fst a) (fst b)) od"

section \<open>util.py: levenshtein_norm\<close>

text \<open>
  The distance matrix is a list of rows. Every cell starts as \<open>i if j == 0 else j\<close>; the
  two nested loops then overwrite the cells \<open>(i, j)\<close> with \<open>1 \<le> i \<le> l_s\<close> and
  \<open>1 \<le> j \<le> l_t\<close>, row by row, each from its three neighbours. All the indices the loops
  read and write lie inside the matrix. The strings are lists over any character type.
\<close>

definition init_matrix :: "nat \<Rightarrow> nat \<Rightarrow> nat list list" where
  "init_matrix l_s l_t =
     map (\<lambda>i. map (\<lambda>j. if j = 0 then i else j) [0..<l_t + 1]) [0..<l_s + 1]"

definition cell_update :: "'a list \<Rightarrow> 'a list \<Rightarrow> nat \<Rightarrow> nat \<Rightarrow> nat list list \<Rightarrow> nat list list" where
  "cell_update source target i j matrix =
     (let sub_distance =
            matrix ! (i - 1) ! (j - 1) + (if source ! (i - 1) = target ! (j - 1) then 0 else 1)
      in matrix[i := (matrix ! i)
                  [j := min (min (matrix ! (i - 1) ! j + 1) (matrix ! i ! (j - 1) + 1))
                            sub_distance]])"

definition row_update :: "'a list \<Rightarrow> 'a list \<Rightarrow> nat \<Rightarrow> nat list list \<Rightarrow> nat list list" where
  "row_update source target i matrix =
     fold (cell_update source target i) [1..<length target + 1] matrix"

definition levenshtein_matrix :: "'a list \<Rightarrow> 'a list \<Rightarrow> nat list list" where
  "levenshtein_matrix source target =
     fold (row_update source target) [1..<length source + 1]
       (init_matrix (length source) (length target))"

text \<open>
  The returned similarity. The distance and the lengths are integers; the quotient and the
  difference are taken over the reals, where the code computes them in double precision,
  so that the two values agree up to the rounding of the quotient. Two empty strings
  divide by zero, which Python raises as \<open>ZeroDivisionError\<close>.
\<close>

definition levenshtein_norm :: "'a list \<Rightarrow> 'a list \<Rightarrow> py_error + real" where
  "levenshtein_norm source target =
     (let l_s = length source; l_t = length target;
          matrix = levenshtein_matrix source target
      in if max l_s l_t = 0 then Inl ZeroDivisionError
         else Inr (1 - real (matrix ! l_s ! l_t) / real (max l_s l_t)))"

text \<open>
  The recurrence the matrix is filled by, as a function of the cell: the reference the
  loops are proved against.
\<close>

fun cell_distance :: "'a list \<Rightarrow> 'a list \<Rightarrow> nat \<Rightarrow> nat \<Rightarrow> nat" where
  "cell_distance s t 0 j = j"
| "cell_distance s t (Suc i) 0 = Suc i"
| "cell_distance s t (Suc i) (Suc j) =
     min (min (cell_distance s t i (Suc j) + 1) (cell_distance s t (Suc i) j + 1))
         (cell_distance s t i j + (if s ! i = t ! j then 0 else 1))"

text \<open>
  The state of the matrix when the loops stand at row \<open>i\<close>, column \<open>j\<close>: its shape, and
  every cell already final.
\<close>

definition matrix_upto :: "'a list \<Rightarrow> 'a list \<Rightarrow> nat \<Rightarrow> nat \<Rightarrow> nat list list \<Rightarrow> bool" where
  "matrix_upto s t i j m \<longleftrightarrow>
     length m = length s + 1 \<and>
     (\<forall>a \<le> length s. length (m ! a) = length t + 1) \<and>
     (\<forall>a \<le> length s. \<forall>b \<le> length t.
        (a < i \<or> (a = i \<and> b < j) \<or> a = 0 \<or> b = 0) \<longrightarrow> m ! a ! b = cell_distance s t a b)"

section \<open>Python values, dictionaries and string helpers\<close>

text \<open>
  The values that flow through the parser: the tokens of the input (strings and opaque
  objects, an object being known by a number) and what the analysis binds.
\<close>

datatype pyval =
    VNone
  | VStr string
  | VInt int
  | VBool bool
  | VObj nat
  | VList "pyval list"
  | VTuple "pyval list"
  | VDict "(string \<times> pyval) list"

text \<open>Python truth value (\<open>not x\<close> is its negation); an opaque object is true.\<close>

fun truthy :: "pyval \<Rightarrow> bool" where
  "truthy VNone = False"
| "truthy (VStr s) = (s \<noteq> [])"
| "truthy (VInt i) = (i \<noteq> 0)"
| "truthy (VBool b) = b"
| "truthy (VObj n) = True"
| "truthy (VList xs) = (xs \<noteq> [])"
| "truthy (VTuple xs) = (xs \<noteq> [])"
| "truthy (VDict kvs) = (kvs \<noteq> [])"

fun is_str :: "pyval \<Rightarrow> bool" where
  "is_str (VStr s) = True"
| "is_str v = False"

text \<open>
  \<open>str(x)\<close>, used in messages and when a value is pasted into a token, and \<open>repr(x)\<close>,
  which \<open>str\<close> applies to the elements of a container. A string is its own \<open>str\<close>; its
  \<open>repr\<close> is quoted, with single quotes unless it holds a single quote and no double
  quote, and escapes the backslash, the quote, the control characters and the
  unprintable characters. A number is written in decimal. An opaque object is known by
  its number and prints as such, where Python prints the class and the address.
\<close>

fun str_of_nat_fuel :: "nat \<Rightarrow> nat \<Rightarrow> string" where
  "str_of_nat_fuel 0 n = []"
| "str_of_nat_fuel (Suc f) n =
     (if n < 10 then [char_of (48 + n)]
      else str_of_nat_fuel f (n div 10) @ [char_of (48 + n mod 10)])"

definition str_of_nat :: "nat \<Rightarrow> string" where
  "str_of_nat n = str_of_nat_fuel (Suc n) n"

definition str_of_int :: "int \<Rightarrow> string" where
  "str_of_int i = (if i < 0 then CHR ''-'' # str_of_nat (nat (- i)) else str_of_nat (nat i))"

definition hex_digit :: "nat \<Rightarrow> char" where
  "hex_digit n = (if n < 10 then char_of (48 + n) else char_of (87 + n))"

definition repr_char :: "char \<Rightarrow> char \<Rightarrow> string" where
  "repr_char quote c =
     (let n = (of_char c :: nat)
      in if c = CHR 0x5C then [CHR 0x5C, CHR 0x5C]
         else if c = quote then [CHR 0x5C, quote]
         else if n = 9 then [CHR 0x5C, CHR ''t'']
         else if n = 10 then [CHR 0x5C, CHR ''n'']
         else if n = 13 then [CHR 0x5C, CHR ''r'']
         else if n < 32 \<or> (127 \<le> n \<and> n \<le> 160) \<or> n = 173
         then [CHR 0x5C, CHR ''x'', hex_digit (n div 16), hex_digit (n mod 16)]
         else [c])"

definition repr_str :: "string \<Rightarrow> string" where
  "repr_str s =
     (let quote = (if CHR 0x27 \<in> set s \<and> CHR 0x22 \<notin> set s then CHR 0x22 else CHR 0x27)
      in [quote] @ concat (map (repr_char quote) s) @ [quote])"

fun join :: "string \<Rightarrow> string list \<Rightarrow> string" where
  "join sep [] = []"
| "join sep [x] = x"
| "join sep (x # y # rest) = x @ sep @ join sep (y # rest)"

fun py_repr :: "pyval \<Rightarrow> string" where
  "py_repr (VStr s) = repr_str s"
| "py_repr VNone = ''None''"
| "py_repr (VInt i) = str_of_int i"
| "py_repr (VBool b) = (if b then ''True'' else ''False'')"
| "py_repr (VObj n) = ''<object '' @ str_of_nat n @ ''>''"
| "py_repr (VList xs) = ''['' @ join '', '' (map py_repr xs) @ '']''"
| "py_repr (VTuple xs) =
     (case xs of
        [x] \<Rightarrow> ''('' @ py_repr x @ '',)''
      | other \<Rightarrow> ''('' @ join '', '' (map py_repr xs) @ '')'')"
| "py_repr (VDict kvs) =
     ''{'' @ join '', '' (map (\<lambda>kv. repr_str (fst kv) @ '': '' @ py_repr (snd kv)) kvs) @ ''}''"

fun py_str :: "pyval \<Rightarrow> string" where
  "py_str (VStr s) = s"
| "py_str v = py_repr v"

text \<open>
  A \<open>dict\<close> with string keys is an association list in insertion order with distinct
  keys: \<open>d[k] = v\<close> replaces the value in place or appends a new entry.
\<close>

type_synonym pydict = "(string \<times> pyval) list"

fun dict_set :: "string \<Rightarrow> 'v \<Rightarrow> (string \<times> 'v) list \<Rightarrow> (string \<times> 'v) list" where
  "dict_set k v [] = [(k, v)]"
| "dict_set k v ((k', v') # rest) =
     (if k = k' then (k, v) # rest else (k', v') # dict_set k v rest)"

definition dict_get :: "(string \<times> 'v) list \<Rightarrow> string \<Rightarrow> 'v option" where
  "dict_get d k = map_of d k"


text \<open>\<open>s.startswith(p)\<close>, \<open>s.lstrip("-")\<close> and \<open>sub in s\<close> on strings.\<close>

definition startswith :: "string \<Rightarrow> string \<Rightarrow> bool" where
  "startswith s p = (take (length p) s = p)"

definition lstrip_dash :: "string \<Rightarrow> string" where
  "lstrip_dash s = dropWhile (\<lambda>c. c = CHR ''-'') s"

fun contains :: "string \<Rightarrow> string \<Rightarrow> bool" where
  "contains [] sub = (sub = [])"
| "contains (c # s) sub = (startswith (c # s) sub \<or> contains s sub)"

section \<open>util.py: split_once and split\<close>

text \<open>
  \<open>split_once\<close> cuts a string at the first separator character that stands outside a
  quoted part. The loop keeps the open quotation mark (\<open>None\<close> for the empty string) and
  collects \<open>out_text\<close>; \<open>is_split\<close> of the source is true exactly when no quotation is open.
  The result is \<open>out_text\<close> and the text after it and one more character.
\<close>

fun split_once_loop :: "string list \<Rightarrow> char option \<Rightarrow> string \<Rightarrow> string \<Rightarrow> string" where
  "split_once_loop separates quotation out_text [] = out_text"
| "split_once_loop separates quotation out_text (c # rest) =
     (let quotation' =
            (if c = CHR ''\"'' \<or> c = CHR 0x27
             then (case quotation of
                     None \<Rightarrow> Some c
                   | Some q \<Rightarrow> if c = q then None else Some q)
             else quotation)
      in if [c] \<in> set separates \<and> quotation' = None then out_text
         else split_once_loop separates quotation' (out_text @ [c]) rest)"

definition split_once :: "string \<Rightarrow> string list \<Rightarrow> string \<times> string" where
  "split_once text separates =
     (let result = split_once_loop separates None [] text
      in (result, drop (length result + 1) text))"

text \<open>
  \<open>split\<close>: the loop state is the character before the current one (\<open>text[index - 1]\<close>,
  absent at index 0), the open quotation mark, the piece being collected (\<open>cache\<close> in the source) and the pieces
  finished. The branches are those of the source, in its order.
\<close>

fun split_loop ::
  "string list \<Rightarrow> char option \<Rightarrow> char option \<Rightarrow> string \<Rightarrow> string list \<Rightarrow> string \<Rightarrow> string list" where
  "split_loop separates prev quotation piece result [] =
     (if piece \<noteq> [] then result @ [piece] else result)"
| "split_loop separates prev quotation piece result (c # rest) =
     (if c = CHR ''\"'' \<or> c = CHR 0x27
      then (case quotation of
              None \<Rightarrow>
                split_loop separates (Some c) (Some c)
                  (if prev = Some CHR 0x5C then piece @ [c] else piece) result rest
            | Some q \<Rightarrow>
                if c = q
                then split_loop separates (Some c) None
                       (if prev = Some CHR 0x5C then piece @ [c] else piece) result rest
                else split_loop separates (Some c) quotation piece result rest)
      else if c = CHR 0x0A \<or> c = CHR 0x0D \<or>
              (quotation = None \<and> [c] \<in> set separates \<and> piece \<noteq> [])
      then split_loop separates (Some c) quotation [] (result @ [piece]) rest
      else if c \<noteq> CHR 0x5C \<and> ([c] \<notin> set separates \<or> quotation \<noteq> None)
      then split_loop separates (Some c) quotation (piece @ [c]) result rest
      else split_loop separates (Some c) quotation piece result rest)"

definition split :: "string \<Rightarrow> string list option \<Rightarrow> string list" where
  "split text separates =
     split_loop (case separates of None \<Rightarrow> ['' ''] | Some [] \<Rightarrow> ['' ''] | Some seps \<Rightarrow> seps)
       None None [] [] text"

section \<open>The token stream: Argv\<close>

text \<open>
  What \<open>argv.context\<close> holds (the field \<open>argv_context\<close> below): nothing, the \<open>Arg\<close>, the \<open>Option\<close> or the \<open>Subcommand\<close> being
  matched. The handlers only test its class.
\<close>

datatype ctx = CtxNone | CtxArg string | CtxOption string | CtxSubcommand string

fun is_arg_ctx :: "ctx \<Rightarrow> bool" where
  "is_arg_ctx (CtxArg n) = True"
| "is_arg_ctx c = False"

text \<open>
  Modelled from the spec: the class \<open>Argv\<close> (the module \<open>_argv.py\<close> is not among the
  sources). The fields are those of section 3 of the specification; \<open>sep_pending\<close> holds
  the separators of the last sub-split whose remainder was pushed back, which
  \<open>rollback\<close> needs in order to re-insert the separator. \<open>disable_builtin_options\<close> is the
  field of that name of the namespace. \<open>ndata\<close> is the number of tokens of \<open>raw_data\<close>.
\<close>

record Argv =
  raw_data :: "pyval list"
  bak_data :: "pyval list"
  current_index :: nat
  ndata :: nat
  separators :: "string list"
  sep_pending :: "string list option"
  special :: "(string \<times> string) list"
  disable_builtin_options :: "string list"
  param_ids :: "string list"
  fuzzy_match :: bool
  fuzzy_threshold :: real
  filter_crlf :: bool
  argv_context :: ctx
  converter :: "pyval list \<Rightarrow> pyval"

text \<open>
  Modelled from the spec: \<open>next(seps, move)\<close> returns the next token and whether it is a
  string. At the end of the data it returns the empty string and moves nothing (the
  handlers test the token with \<open>not may_arg\<close>). When \<open>seps\<close> is given and differs from the
  separators of the stream, the pending string is cut once by \<open>split_once\<close>; a non-empty
  remainder is pushed back into the slot and the index stays, otherwise the index
  advances. Without \<open>move\<close> nothing is consumed.
\<close>

definition next_tok :: "Argv \<Rightarrow> string list option \<Rightarrow> bool \<Rightarrow> (pyval \<times> bool) \<times> Argv" where
  "next_tok argv seps move =
     (if current_index argv = ndata argv \<or> length (raw_data argv) \<le> current_index argv
      then ((VStr [], True), argv)
      else
        let argv1 = argv\<lparr>sep_pending := None\<rparr>;
            i = current_index argv1
        in (case raw_data argv1 ! i of
              VStr s \<Rightarrow>
                (case seps of
                   Some sp \<Rightarrow>
                     if set sp \<noteq> set (separators argv1)
                     then (let (text, rest) = split_once s sp
                           in if move
                              then (if rest \<noteq> []
                                    then ((VStr text, True),
                                          argv1\<lparr>sep_pending := Some sp,
                                                raw_data := (raw_data argv1)[i := VStr rest]\<rparr>)
                                    else ((VStr text, True), argv1\<lparr>current_index := i + 1\<rparr>))
                              else ((VStr text, True), argv1))
                     else ((VStr s, True),
                           if move then argv1\<lparr>current_index := i + 1\<rparr> else argv1)
                 | None \<Rightarrow>
                     ((VStr s, True),
                      if move then argv1\<lparr>current_index := i + 1\<rparr> else argv1))
            | tok \<Rightarrow> ((tok, False), if move then argv1\<lparr>current_index := i + 1\<rparr> else argv1)))"

text \<open>
  Modelled from the spec: \<open>rollback(token, replace)\<close> puts a token back. An empty token
  (the end of the data) puts nothing back. After a sub-split the token and the consumed
  separator are re-inserted in front of the remainder; otherwise the index is
  decremented and, with \<open>replace\<close>, the slot is overwritten.
\<close>

definition rollback :: "Argv \<Rightarrow> pyval \<Rightarrow> bool \<Rightarrow> Argv" where
  "rollback argv data replace =
     (if data = VStr [] \<or> data = VNone then argv
      else (case sep_pending argv of
              Some sp \<Rightarrow>
                (let i = current_index argv;
                     cur = (if i < length (raw_data argv) then py_str (raw_data argv ! i) else [])
                 in argv\<lparr>raw_data :=
                      (raw_data argv)[i := VStr (py_str data @ (case sp of [] \<Rightarrow> [] | s0 # ss \<Rightarrow> s0) @ cur)]\<rparr>)
            | None \<Rightarrow>
                (let argv1 = (if 1 \<le> current_index argv
                              then argv\<lparr>current_index := current_index argv - 1\<rparr> else argv)
                 in if replace
                    then argv1\<lparr>raw_data := (raw_data argv1)[current_index argv1 := data]\<rparr>
                    else argv1)))"

text \<open>
  Modelled from the spec: \<open>release(seps, recover)\<close> returns the remaining tokens as a list,
  a string token being cut by \<open>split\<close> when \<open>seps\<close> is given and differs from the
  separators of the stream. With \<open>recover\<close> the tokens are those of the snapshot
  \<open>bak_data\<close> and nothing is consumed; otherwise the remaining tokens are consumed.
\<close>

definition release :: "Argv \<Rightarrow> string list option \<Rightarrow> bool \<Rightarrow> pyval list \<times> Argv" where
  "release argv seps recover =
     (let toks = (if recover then bak_data argv else drop (current_index argv) (raw_data argv));
          cut = (\<lambda>tok. case tok of
                   VStr s \<Rightarrow>
                     (case seps of
                        Some sp \<Rightarrow>
                          if set sp \<noteq> set (separators argv) then map VStr (split s (Some sp))
                          else [VStr s]
                      | None \<Rightarrow> [VStr s])
                 | other \<Rightarrow> [other])
      in (concat (map cut toks),
          if recover then argv else argv\<lparr>current_index := ndata argv\<rparr>))"

text \<open>
  Modelled from the spec: \<open>data_set()\<close> takes the checkpoint (a copy of the data view and
  the index) and \<open>data_reset(snap, idx)\<close> restores it.
\<close>

definition data_set :: "Argv \<Rightarrow> pyval list \<times> nat" where
  "data_set argv = (raw_data argv, current_index argv)"

definition data_reset :: "Argv \<Rightarrow> pyval list \<Rightarrow> nat \<Rightarrow> Argv" where
  "data_reset argv snap idx = argv\<lparr>raw_data := snap, current_index := idx\<rparr>"

text \<open>
  The test \<open>_str and may_arg in argv.special\<close> followed by
  \<open>argv.special[may_arg] not in argv.namespace.disable_builtin_options\<close>, which every
  handler runs on a fresh token: the name of the special option to trigger, if any.
\<close>

definition special_trigger :: "Argv \<Rightarrow> pyval \<Rightarrow> bool \<Rightarrow> string option" where
  "special_trigger argv tok str_flag =
     (case tok of
        VStr s \<Rightarrow>
          (if str_flag then
             (case dict_get (special argv) s of
                Some kind \<Rightarrow> if kind \<notin> set (disable_builtin_options argv) then Some kind else None
              | None \<Rightarrow> None)
           else None)
      | other \<Rightarrow> None)"

definition in_param_ids :: "Argv \<Rightarrow> pyval \<Rightarrow> bool \<Rightarrow> bool" where
  "in_param_ids argv tok str_flag =
     (case tok of VStr s \<Rightarrow> str_flag \<and> s \<in> set (param_ids argv) | other \<Rightarrow> False)"

text \<open>
  Modelled from the spec: \<open>build(input)\<close>, for an input that is already cut into its
  tokens: the tokens become the data view and its snapshot, \<open>ndata\<close> is their number and
  the index is at the start.
\<close>

definition build :: "Argv \<Rightarrow> pyval list \<Rightarrow> Argv" where
  "build argv toks =
     argv\<lparr>raw_data := toks, bak_data := toks, current_index := 0, ndata := length toks,
           sep_pending := None\<rparr>"

section \<open>The grammar model: patterns, Arg, Args\<close>

text \<open>
  The value-pattern library is an external collaborator; a pattern is known here by what
  the handlers use of it: its \<open>alias\<close>, which of the library's constants it is (the tests
  \<open>value is STRING\<close>, \<open>value is ANY\<close>, \<open>value is AnyString\<close>), and its match function, which
  gives the converted value of an input it accepts.
\<close>

datatype pattern_id = STRING | ANY | AnyString | OtherPattern

record pattern =
  pat_alias :: string
  pat_id :: pattern_id
  pat_match :: "pyval \<Rightarrow> pyval option"

text \<open>
  \<open>Pattern.validate(input, default)\<close>: flag \<open>valid\<close> with the converted value; on a mismatch
  flag \<open>default\<close> with the default when one is given (\<open>None\<close> stands for the sentinel
  \<open>Empty\<close>), flag \<open>error\<close> otherwise.
\<close>

datatype validate_result = Valid pyval | Default pyval | Error string

definition pattern_validate :: "pattern \<Rightarrow> pyval \<Rightarrow> pyval option \<Rightarrow> validate_result" where
  "pattern_validate p input dflt =
     (case pat_match p input of
        Some v \<Rightarrow> Valid v
      | None \<Rightarrow> (case dflt of None \<Rightarrow> Error (py_str input) | Some d \<Rightarrow> Default d))"

text \<open>
  \<open>Arg\<close> with the field of its \<open>Field\<close> that the handlers read: \<open>arg_default\<close> is
  \<open>arg.field.default\<close>, \<open>None\<close> standing for \<open>Empty\<close>. The tips of the field only shape
  messages.
\<close>

record Arg =
  arg_name :: string
  arg_value :: pattern
  arg_separators :: "string list"
  arg_optional :: bool
  arg_default :: "pyval option"

text \<open>\<open>MultiVar\<close> of typing.py: the base pattern, the flag (\<open>+\<close> or \<open>*\<close>) and the length limit.\<close>

record MultiVar =
  mv_base :: pattern
  mv_flag :: string
  mv_length :: int

record MultiKeyWordVar =
  mkv_base :: pattern
  mkv_sep :: string
  mkv_flag :: string
  mkv_length :: int

text \<open>
  \<open>Args.argument\<close>, bucketed. A keyword-only entry is the key, the \<open>Arg\<close> and the separator
  \<open>arg.value.sep\<close> of its keyword pattern. The nested \<open>Args\<close> of the unpack slot is taken
  as \<open>unpack.separate(*arg.separators)\<close> leaves it.
\<close>

datatype Args =
  Args (normal: "Arg list")
       (keyword_only: "(string \<times> Arg \<times> string) list")
       (vars_positional: "(MultiVar \<times> Arg) list")
       (vars_keyword: "(MultiKeyWordVar \<times> Arg) list")
       (unpack: "(Arg \<times> Args) option")

text \<open>
  What the handlers take from outside the sources at hand: the similarity
  \<open>levenshtein\<close> of \<open>_util.py\<close>, the list \<open>config.remainders\<close>, the key
  \<open>split_once(pat.match(s)["name"], seps, crlf)[0]\<close> that \<open>step_varpos\<close> looks up among the
  keyword-only arguments (a regular expression of the library \<open>re\<close>), and the two steps
  \<open>step_keyword\<close> and \<open>step_varkey\<close>, which are built on regular expressions as well and
  are not the subject of any property below. \<open>alias_fullmatch al name\<close> is the library's
  \<open>re.fullmatch(f"{al}(?P<rest>.*?)", name)\<close> for an alias \<open>al\<close> that holds a metacharacter
  of regular expressions: the group \<open>rest\<close> of the match, nothing when there is no match,
  or the exception of an expression that does not compile.
\<close>

record externals =
  levenshtein :: "string \<Rightarrow> string \<Rightarrow> real"
  alias_fullmatch :: "string \<Rightarrow> string \<Rightarrow> py_error + string option"
  remainders :: "string list"
  kwonly_key :: "string \<Rightarrow> string list \<Rightarrow> bool \<Rightarrow> string"
  step_keyword :: "Argv \<Rightarrow> Args \<Rightarrow> pydict \<Rightarrow> (py_error + pydict) \<times> Argv"
  step_varkey :: "Argv \<Rightarrow> MultiKeyWordVar \<times> Arg \<Rightarrow> pydict \<Rightarrow> (py_error + pydict) \<times> Argv"

section \<open>_handlers.py: _validate, step_varpos, analyse_args\<close>

text \<open>
  \<open>_validate\<close>. The result is the exception raised, if any, the stream, and the dictionary
  \<open>result\<close> as the call leaves it.
\<close>

definition validate_priv ::
  "Argv \<Rightarrow> Arg \<Rightarrow> pattern \<Rightarrow> pydict \<Rightarrow> pyval \<Rightarrow> bool \<Rightarrow> py_error option \<times> Argv \<times> pydict" where
  "validate_priv argv target val result arg str_flag =
     (if (pat_id val = STRING \<and> str_flag) \<or> pat_id val = ANY
      then (None, argv, dict_set (arg_name target) arg result)
      else if pat_id val = AnyString
      then (None, argv, dict_set (arg_name target) (VStr (py_str arg)) result)
      else
        (case pattern_validate val arg (arg_default target) of
           Valid v \<Rightarrow> (None, argv, dict_set (arg_name target) v result)
         | Default d \<Rightarrow>
             (None, rollback argv arg False, dict_set (arg_name target) d result)
         | Error msg \<Rightarrow>
             (let argv1 = rollback argv arg False
              in if arg_optional target then (None, argv1, result)
                 else (Some (InvalidParam msg), argv1, result))))"

text \<open>
  The tokens still to be read, each weighed by one plus its length: every \<open>next\<close> that
  yields a non-empty token lowers it, which bounds the loop of \<open>step_varpos\<close>.
\<close>

fun tok_weight :: "pyval \<Rightarrow> nat" where
  "tok_weight (VStr s) = Suc (length s)"
| "tok_weight v = Suc 0"

definition argv_weight :: "Argv \<Rightarrow> nat" where
  "argv_weight argv = sum_list (map tok_weight (drop (current_index argv) (raw_data argv)))"

text \<open>
  The \<open>while\<close> loop of \<open>step_varpos\<close>, with \<open>_result\<close> and \<open>count\<close> as accumulators. Each
  \<open>break\<close> returns what has been collected; the recursive call is the next iteration.
\<close>

function varpos_loop ::
  "externals \<Rightarrow> Args \<Rightarrow> MultiVar \<Rightarrow> Arg \<Rightarrow> Argv \<Rightarrow> pyval list \<Rightarrow> int \<Rightarrow> (py_error + pyval list) \<times> Argv" where
  "varpos_loop E args val arg argv acc cnt =
     (if current_index argv = ndata argv then (Inr acc, argv)
      else
        (case next_tok argv (Some (arg_separators arg)) True of
           ((may_arg, str_flag), argv1) \<Rightarrow>
             (case special_trigger argv1 may_arg str_flag of
                Some kind \<Rightarrow> (Inl (SpecialOptionTriggered kind), argv1)
              | None \<Rightarrow>
                  if \<not> truthy may_arg \<or> in_param_ids argv1 may_arg str_flag
                  then (Inr acc, rollback argv1 may_arg False)
                  else if str_flag \<and> py_str may_arg \<in> set (remainders E)
                  then (Inr acc, argv1)
                  else if str_flag \<and> keyword_only args \<noteq> [] \<and>
                          kwonly_key E (py_str may_arg)
                            (map (\<lambda>kv. snd (snd kv)) (keyword_only args)) (filter_crlf argv1)
                            \<in> fst ` set (keyword_only args)
                  then (Inr acc, rollback argv1 may_arg False)
                  else if str_flag \<and> vars_keyword args \<noteq> [] \<and>
                          contains (py_str may_arg) (mkv_sep (fst (hd (vars_keyword args))))
                  then (Inr acc, rollback argv1 may_arg False)
                  else
                    (case pattern_validate (mv_base val) may_arg None of
                       Valid v \<Rightarrow>
                         (if 0 < mv_length val \<and> mv_length val \<le> cnt + 1
                          then (Inr (acc @ [v]), argv1)
                          else varpos_loop E args val arg argv1 (acc @ [v]) (cnt + 1))
                     | other \<Rightarrow> (Inr acc, rollback argv1 may_arg False)))))"
  by pat_completeness auto

text \<open>\<open>isinstance(x, Iterable)\<close> with the items \<open>tuple(x)\<close> takes from an iterable value.\<close>

fun iter_items :: "pyval \<Rightarrow> pyval list option" where
  "iter_items (VList xs) = Some xs"
| "iter_items (VTuple xs) = Some xs"
| "iter_items (VStr s) = Some (map (\<lambda>c. VStr [c]) s)"
| "iter_items (VDict kvs) = Some (map (\<lambda>kv. VStr (fst kv)) kvs)"
| "iter_items v = None"

text \<open>
  \<open>step_varpos\<close>: the loop, then the treatment of an empty collection, in the source's
  order: the declared default first, then the flag.
\<close>

definition step_varpos ::
  "externals \<Rightarrow> Argv \<Rightarrow> Args \<Rightarrow> MultiVar \<times> Arg \<Rightarrow> pydict \<Rightarrow> (py_error + pydict) \<times> Argv" where
  "step_varpos E argv args slot result =
     (let val = fst slot; arg = snd slot;
          argv0 = argv\<lparr>argv_context := CtxArg (arg_name arg)\<rparr>;
          key = arg_name arg;
          default_val = arg_default arg
      in (case varpos_loop E args val arg argv0 [] 0 of
            (Inl e, argv1) \<Rightarrow> (Inl e, argv1)
          | (Inr collected, argv1) \<Rightarrow>
              if collected = []
              then (case default_val of
                      Some d \<Rightarrow>
                        (Inr (dict_set key
                                (VTuple (case iter_items d of Some xs \<Rightarrow> xs | None \<Rightarrow> [])) result),
                         argv1)
                    | None \<Rightarrow>
                        if mv_flag val = ''*''
                        then (Inr (dict_set key (VTuple []) result), argv1)
                        else (Inl (ArgumentMissing key), argv1))
              else (Inr (dict_set key (VTuple collected) result), argv1)))"

text \<open>
  The loop of \<open>analyse_args\<close> over the normal arguments. \<open>Return\<close> is the \<open>return result\<close>
  inside the loop (the wildcard), \<open>Continue\<close> the end of the loop; \<open>continue\<close> is the
  recursive call on the remaining arguments.
\<close>

datatype 'a flow = Return 'a | Continue 'a

fun analyse_normal ::
  "Arg list \<Rightarrow> Argv \<Rightarrow> pydict \<Rightarrow> (py_error + pydict flow) \<times> Argv" where
  "analyse_normal [] argv result = (Inr (Continue result), argv)"
| "analyse_normal (arg # rest) argv result =
     (case next_tok (argv\<lparr>argv_context := CtxArg (arg_name arg)\<rparr>)
             (Some (arg_separators arg)) True of
        ((may_arg, str_flag), argv1) \<Rightarrow>
          (case special_trigger argv1 may_arg str_flag of
             Some kind \<Rightarrow> (Inl (SpecialOptionTriggered kind), argv1)
           | None \<Rightarrow>
               if in_param_ids argv1 may_arg str_flag \<and> arg_optional arg
               then analyse_normal rest (rollback argv1 may_arg False)
                      (case arg_default arg of
                         Some de \<Rightarrow> dict_set (arg_name arg) de result
                       | None \<Rightarrow> result)
               else if \<not> truthy may_arg
               then (let argv2 = rollback argv1 may_arg False
                     in (case arg_default arg of
                           Some de \<Rightarrow> analyse_normal rest argv2 (dict_set (arg_name arg) de result)
                         | None \<Rightarrow>
                             if \<not> arg_optional arg
                             then (Inl (ArgumentMissing (arg_name arg)), argv2)
                             else analyse_normal rest argv2 result))
               else if pat_alias (arg_value arg) = ''*''
               then (let argv2 = rollback argv1 may_arg False;
                         (rel, argv3) = release argv2 (Some (arg_separators arg)) False
                     in (Inr (Return (dict_set (arg_name arg) (converter argv3 rel) result)),
                         argv3\<lparr>current_index := ndata argv3\<rparr>))
               else (case validate_priv argv1 arg (arg_value arg) result may_arg str_flag of
                       (Some e, argv2, result2) \<Rightarrow> (Inl e, argv2)
                     | (None, argv2, result2) \<Rightarrow> analyse_normal rest argv2 result2)))"

text \<open>The two \<open>for slot in ...\<close> loops over the variadic slots.\<close>

fun varpos_all ::
  "externals \<Rightarrow> Args \<Rightarrow> (MultiVar \<times> Arg) list \<Rightarrow> Argv \<Rightarrow> pydict \<Rightarrow> (py_error + pydict) \<times> Argv" where
  "varpos_all E args [] argv result = (Inr result, argv)"
| "varpos_all E args (slot # slots) argv result =
     (case step_varpos E argv args slot result of
        (Inl e, argv1) \<Rightarrow> (Inl e, argv1)
      | (Inr result1, argv1) \<Rightarrow> varpos_all E args slots argv1 result1)"

fun varkey_all ::
  "externals \<Rightarrow> (MultiKeyWordVar \<times> Arg) list \<Rightarrow> Argv \<Rightarrow> pydict \<Rightarrow> (py_error + pydict) \<times> Argv" where
  "varkey_all E [] argv result = (Inr result, argv)"
| "varkey_all E (slot # slots) argv result =
     (case step_varkey E argv slot result of
        (Inl e, argv1) \<Rightarrow> (Inl e, argv1)
      | (Inr result1, argv1) \<Rightarrow> varkey_all E slots argv1 result1)"

text \<open>
  \<open>analyse_args\<close>: the normal arguments, then the unpack slot (a recursive call on the
  nested \<open>Args\<close>, any exception of which is caught: the default if there is one, the
  exception again if the argument is not optional), the variadic positional slots, the
  keyword-only block, the variadic keyword slots; finally \<open>argv.context = None\<close>. The
  object \<open>arg.value.origin(**d)\<close> built from the nested result is represented by the
  dictionary \<open>d\<close>.
\<close>

fun analyse_args :: "externals \<Rightarrow> Argv \<Rightarrow> Args \<Rightarrow> (py_error + pydict) \<times> Argv" where
  "analyse_args E argv (Args nl kw vp vk up) =
     (case analyse_normal nl argv [] of
        (Inl e, argv1) \<Rightarrow> (Inl e, argv1)
      | (Inr (Return result), argv1) \<Rightarrow> (Inr result, argv1)
      | (Inr (Continue result), argv1) \<Rightarrow>
          (case (case up of
                   None \<Rightarrow> (Inr result, argv1)
                 | Some (arg, nested) \<Rightarrow>
                     (case analyse_args E argv1 nested of
                        (Inr d, argv2) \<Rightarrow> (Inr (dict_set (arg_name arg) (VDict d) result), argv2)
                      | (Inl e, argv2) \<Rightarrow>
                          (case arg_default arg of
                             Some de \<Rightarrow> (Inr (dict_set (arg_name arg) de result), argv2)
                           | None \<Rightarrow>
                               if \<not> arg_optional arg then (Inl e, argv2)
                               else (Inr result, argv2)))) of
             (Inl e, argv2) \<Rightarrow> (Inl e, argv2)
           | (Inr result2, argv2) \<Rightarrow>
               (case varpos_all E (Args nl kw vp vk up) vp argv2 result2 of
                  (Inl e, argv3) \<Rightarrow> (Inl e, argv3)
                | (Inr result3, argv3) \<Rightarrow>
                    (case (if kw \<noteq> [] then step_keyword E argv3 (Args nl kw vp vk up) result3
                           else (Inr result3, argv3)) of
                       (Inl e, argv4) \<Rightarrow> (Inl e, argv4)
                     | (Inr result4, argv4) \<Rightarrow>
                         (case varkey_all E vk argv4 result4 of
                            (Inl e, argv5) \<Rightarrow> (Inl e, argv5)
                          | (Inr result5, argv5) \<Rightarrow>
                              (Inr result5, argv5\<lparr>argv_context := CtxNone\<rparr>))))))"

section \<open>The grammar model: Action, Option, OptionResult\<close>

text \<open>
  \<open>Action\<close>: the kind (0 store, 1 append, 2 count) and the value. \<open>Option\<close> with the
  fields the handlers read; the aliases are listed in the order in which the source
  iterates over them. \<open>OptionResult\<close> holds a value and the dictionary of arguments.
\<close>

record Action =
  act_type :: nat
  act_value :: pyval

record CmdOption =
  opt_name :: string
  opt_aliases :: "string list"
  opt_dest :: string
  opt_args :: Args
  opt_separators :: "string list"
  opt_action :: Action
  opt_compact :: bool
  opt_nargs :: nat

record OptionResult =
  res_value :: pyval
  res_args :: pydict

section \<open>_handlers.py: handle_option\<close>

text \<open>
  The loop of a compact option over the aliases:
  \<open>re.fullmatch(f"{al}(?P<rest>.*?)", name)\<close>. The alias enters the expression as it is,
  not escaped. An alias without metacharacter stands for itself: the token starts with
  the alias and the rest has no line feed, which \<open>.\<close> does not match. For any other
  alias the answer is the library's. The result is the rest after the first alias that
  matches.
\<close>

definition regex_literal :: "string \<Rightarrow> bool" where
  "regex_literal al = list_all (\<lambda>c. c \<notin> set ''.^$*+?{}[]|()'' \<and> c \<noteq> CHR 0x5C) al"

definition alias_match :: "externals \<Rightarrow> string \<Rightarrow> string \<Rightarrow> py_error + string option" where
  "alias_match E al name =
     (if regex_literal al
      then Inr (if startswith name al \<and> CHR 0x0A \<notin> set (drop (length al) name)
                then Some (drop (length al) name) else None)
      else alias_fullmatch E al name)"

fun compact_match :: "externals \<Rightarrow> string list \<Rightarrow> string \<Rightarrow> py_error + string option" where
  "compact_match E [] name = Inr None"
| "compact_match E (al # als) name =
     (case alias_match E al name of
        Inl e \<Rightarrow> Inl e
      | Inr (Some rest) \<Rightarrow> Inr (Some rest)
      | Inr None \<Rightarrow> compact_match E als name)"

text \<open>
  The loop of a count option over the aliases: the first alias \<open>al\<close> with
  \<open>name.startswith(al)\<close> and \<open>len(name.lstrip("-")) / len(al.lstrip("-"))\<close> an integer gives
  that quotient as \<open>_cnt\<close>. The division is evaluated only when the token starts with the
  alias, and raises \<open>ZeroDivisionError\<close> for an alias made of dashes only.
\<close>

fun count_match :: "string list \<Rightarrow> string \<Rightarrow> py_error + nat option" where
  "count_match [] name = Inr None"
| "count_match (al # als) name =
     (if startswith name al
      then (if length (lstrip_dash al) = 0 then Inl ZeroDivisionError
            else if length (lstrip_dash al) dvd length (lstrip_dash name)
            then Inr (Some (length (lstrip_dash name) div length (lstrip_dash al)))
            else count_match als name)
      else count_match als name)"

text \<open>The two exits of \<open>if error:\<close>: the fuzzy suggestion or the name error.\<close>

definition option_name_error :: "externals \<Rightarrow> Argv \<Rightarrow> CmdOption \<Rightarrow> pyval \<Rightarrow> py_error" where
  "option_name_error E argv opt name =
     (if fuzzy_match argv \<and> fuzzy_threshold argv \<le> levenshtein E (py_str name) (opt_name opt)
      then FuzzyMatchSuccess (opt_name opt) (py_str name)
      else InvalidParam (py_str name))"

text \<open>
  The matching of the leading token when no trigger is given: the value of \<open>_cnt\<close> on a
  match, the exception otherwise. A token that is not a string has no \<open>startswith\<close> and
  is no subject for \<open>re\<close>: the two loops raise on it (when there is an alias to try).
\<close>

definition option_match :: "externals \<Rightarrow> Argv \<Rightarrow> CmdOption \<Rightarrow> (py_error + nat) \<times> Argv" where
  "option_match E argv opt =
     (case next_tok argv (Some (opt_separators opt)) True of
        ((name, str_flag), argv1) \<Rightarrow>
          if opt_compact opt
          then (case name of
                  VStr n \<Rightarrow>
                    (case compact_match E (opt_aliases opt) n of
                       Inl e \<Rightarrow> (Inl e, argv1)
                     | Inr (Some rest) \<Rightarrow> (Inr 0, rollback argv1 (VStr rest) True)
                     | Inr None \<Rightarrow> (Inl (option_name_error E argv1 opt name), argv1))
                | other \<Rightarrow>
                    if opt_aliases opt = [] then (Inl (option_name_error E argv1 opt name), argv1)
                    else (Inl (OtherError ''TypeError''), argv1))
          else if act_type (opt_action opt) = 2
          then (case name of
                  VStr n \<Rightarrow>
                    (case count_match (opt_aliases opt) n of
                       Inl e \<Rightarrow> (Inl e, argv1)
                     | Inr (Some c) \<Rightarrow> (Inr c, argv1)
                     | Inr None \<Rightarrow> (Inl (option_name_error E argv1 opt name), argv1))
                | other \<Rightarrow>
                    if opt_aliases opt = [] then (Inl (option_name_error E argv1 opt name), argv1)
                    else (Inl (OtherError ''AttributeError''), argv1))
          else if name \<in> VStr ` set (opt_aliases opt) then (Inr 0, argv1)
          else (Inl (option_name_error E argv1 opt name), argv1))"

text \<open>
  \<open>handle_option\<close>. A trigger that is \<open>None\<close> or empty is no trigger. The result is the
  destination and the \<open>OptionResult\<close>: the analysed arguments when the option takes
  arguments, \<open>_cnt or opt.action.value\<close> otherwise.
\<close>

definition handle_option ::
  "externals \<Rightarrow> Argv \<Rightarrow> CmdOption \<Rightarrow> string option \<Rightarrow> (py_error + string \<times> OptionResult) \<times> Argv" where
  "handle_option E argv opt trigger =
     (let argv0 = argv\<lparr>argv_context := CtxOption (opt_name opt)\<rparr>
      in (case (if trigger = None \<or> trigger = Some [] then option_match E argv0 opt
                else (Inr 0, argv0)) of
            (Inl e, argv1) \<Rightarrow> (Inl e, argv1)
          | (Inr cnt, argv1) \<Rightarrow>
              if opt_nargs opt \<noteq> 0
              then (case analyse_args E argv1 (opt_args opt) of
                      (Inl e, argv2) \<Rightarrow> (Inl e, argv2)
                    | (Inr d, argv2) \<Rightarrow>
                        (Inr (opt_dest opt, \<lparr>res_value = VNone, res_args = d\<rparr>), argv2))
              else (Inr (opt_dest opt,
                         \<lparr>res_value = (if cnt \<noteq> 0 then VInt (int cnt)
                                        else act_value (opt_action opt)),
                          res_args = []\<rparr>), argv1)))"

section \<open>_handlers.py: handle_action and analyse_option\<close>

text \<open>
  \<open>source.value += target.value\<close> and \<open>source.value[:]\<close> followed by \<open>extend(target.value)\<close>:
  numbers add, lists concatenate; anything else is a type error of Python.
\<close>

fun py_add :: "pyval \<Rightarrow> pyval \<Rightarrow> py_error + pyval" where
  "py_add (VInt a) (VInt b) = Inr (VInt (a + b))"
| "py_add (VList xs) (VList ys) = Inr (VList (xs @ ys))"
| "py_add a b = Inl (OtherError ''TypeError'')"

fun py_extend :: "pyval \<Rightarrow> pyval \<Rightarrow> py_error + pyval" where
  "py_extend (VList xs) t =
     (case iter_items t of Some ys \<Rightarrow> Inr (VList (xs @ ys)) | None \<Rightarrow> Inl (OtherError ''TypeError''))"
| "py_extend s t = Inl (OtherError ''TypeError'')"

text \<open>
  The loop \<open>for key, value in target.args.items()\<close> of the append kind: a key the source
  already has gets the value appended to its list, a new key starts a list of one.
\<close>

fun append_args :: "pydict \<Rightarrow> pydict \<Rightarrow> py_error + pydict" where
  "append_args src [] = Inr src"
| "append_args src ((key, v) # rest) =
     (case dict_get src key of
        Some (VList xs) \<Rightarrow> append_args (dict_set key (VList (xs @ [v])) src) rest
      | Some other \<Rightarrow> Inl (OtherError ''AttributeError'')
      | None \<Rightarrow> append_args (dict_set key (VList [v]) src) rest)"

definition handle_action :: "CmdOption \<Rightarrow> OptionResult \<Rightarrow> OptionResult \<Rightarrow> py_error + OptionResult" where
  "handle_action param source target =
     (if act_type (opt_action param) = 0 then Inr target
      else if act_type (opt_action param) = 2
      then (if opt_nargs param = 0
            then (case py_add (res_value source) (res_value target) of
                    Inl e \<Rightarrow> Inl e
                  | Inr v \<Rightarrow> Inr (source\<lparr>res_value := v\<rparr>))
            else Inr target)
      else if opt_nargs param = 0
      then (case py_extend (res_value source) (res_value target) of
              Inl e \<Rightarrow> Inl e
            | Inr v \<Rightarrow> Inr (source\<lparr>res_value := v\<rparr>))
      else (case append_args (res_args source) (res_args target) of
              Inl e \<Rightarrow> Inl e
            | Inr d \<Rightarrow> Inr (source\<lparr>res_args := d\<rparr>)))"

text \<open>
  Modelled from the spec: the analyser of a scope (\<open>_analyser.py\<close> is not among the
  sources), by the fields the handlers read and write. A parameter of the dispatch table
  is an option or the sub-analyser of a subcommand; the latter is known by the
  destination name of its command and by what \<open>process(argv, trigger)\<close> followed by
  \<open>result()\<close> gives: the exception raised, if any, the stream, and the subcommand result.
\<close>

datatype Param =
    POption CmdOption
  | PSubcommand string "string option \<Rightarrow> Argv \<Rightarrow> py_error option \<times> Argv \<times> pyval"

record Analyser =
  options_result :: "(string \<times> OptionResult) list"
  subcommands_result :: pydict
  compact_params :: "Param list"
  compile_params :: "(string \<times> Param) list"
  args_result :: pydict
  self_args :: Args
  command_nargs :: nat
  extra_allow :: bool

text \<open>
  The merging step of \<open>analyse_option\<close>: a first occurrence is stored, each argument
  value of an append option being wrapped in a list; a later occurrence is merged by
  \<open>handle_action\<close>.
\<close>

definition merge_option ::
  "Analyser \<Rightarrow> CmdOption \<Rightarrow> string \<Rightarrow> OptionResult \<Rightarrow> py_error + Analyser" where
  "merge_option analyser opt opt_n opt_v =
     (case dict_get (options_result analyser) opt_n of
        None \<Rightarrow>
          Inr (analyser\<lparr>options_result :=
                 dict_set opt_n
                   (if act_type (opt_action opt) = 1 \<and> res_args opt_v \<noteq> []
                    then opt_v\<lparr>res_args := map (\<lambda>kv. (fst kv, VList [snd kv])) (res_args opt_v)\<rparr>
                    else opt_v)
                   (options_result analyser)\<rparr>)
      | Some source \<Rightarrow>
          (case handle_action opt source opt_v of
             Inl e \<Rightarrow> Inl e
           | Inr merged \<Rightarrow>
               Inr (analyser\<lparr>options_result := dict_set opt_n merged (options_result analyser)\<rparr>)))"

definition analyse_option ::
  "externals \<Rightarrow> Analyser \<Rightarrow> Argv \<Rightarrow> CmdOption \<Rightarrow> string option \<Rightarrow> py_error option \<times> Analyser \<times> Argv" where
  "analyse_option E analyser argv opt trigger =
     (case handle_option E argv opt trigger of
        (Inl e, argv1) \<Rightarrow> (Some e, analyser, argv1)
      | (Inr (opt_n, opt_v), argv1) \<Rightarrow>
          (case merge_option analyser opt opt_n opt_v of
             Inl e \<Rightarrow> (Some e, analyser, argv1)
           | Inr analyser1 \<Rightarrow> (None, analyser1, argv1)))"

section \<open>_handlers.py: analyse_compact_params and analyse_param\<close>

text \<open>
  One speculative attempt: an option through \<open>analyse_option\<close> without trigger, a
  subcommand through \<open>process\<close>, whose result is recorded in the \<open>finally\<close> clause whether
  it raised or not.
\<close>

definition attempt_param ::
  "externals \<Rightarrow> Analyser \<Rightarrow> Argv \<Rightarrow> Param \<Rightarrow> string option \<Rightarrow> py_error option \<times> Analyser \<times> Argv" where
  "attempt_param E analyser argv param trigger =
     (case param of
        POption opt \<Rightarrow> analyse_option E analyser argv opt trigger
      | PSubcommand dest process \<Rightarrow>
          (case process trigger argv of
             (err, argv1, res) \<Rightarrow>
               (err,
                analyser\<lparr>subcommands_result := dict_set dest res (subcommands_result analyser)\<rparr>,
                argv1)))"

text \<open>
  The loop of \<open>analyse_compact_params\<close> over the candidates. Before each attempt the
  snapshot is taken; a success returns \<open>True\<close>; \<open>InvalidParam\<close> is raised again when the
  context is an \<open>Arg\<close>, otherwise the snapshot is restored and the loop goes on; any other
  exception propagates. The end of the loop returns \<open>None\<close>, here \<open>False\<close>.
\<close>

fun compact_loop ::
  "externals \<Rightarrow> Param list \<Rightarrow> Analyser \<Rightarrow> Argv \<Rightarrow> (py_error + bool) \<times> Analyser \<times> Argv" where
  "compact_loop E [] analyser argv = (Inr False, analyser, argv)"
| "compact_loop E (param # params) analyser argv =
     (case data_set argv of
        (snap, idx) \<Rightarrow>
          (case attempt_param E analyser argv param None of
             (None, analyser1, argv1) \<Rightarrow> (Inr True, analyser1, argv1)
           | (Some (InvalidParam msg), analyser1, argv1) \<Rightarrow>
               if is_arg_ctx (argv_context argv1)
               then (Inl (InvalidParam msg), analyser1, argv1)
               else compact_loop E params analyser1 (data_reset argv1 snap idx)
           | (Some e, analyser1, argv1) \<Rightarrow> (Inl e, analyser1, argv1)))"

definition analyse_compact_params ::
  "externals \<Rightarrow> Analyser \<Rightarrow> Argv \<Rightarrow> (py_error + bool) \<times> Analyser \<times> Argv" where
  "analyse_compact_params E analyser argv = compact_loop E (compact_params analyser) analyser argv"

text \<open>
  The course of the dispatch, candidate by candidate. An attempt fails softly when it
  raises \<open>InvalidParam\<close> while the context is not an \<open>Arg\<close>. \<open>soft_run\<close> attempts the
  candidates of a list one after the other, each on the state the previous attempt left
  with the data view and the index put back to a given snapshot; it gives the state
  reached when every attempt has failed softly, and nothing as soon as one has not.
\<close>

definition soft_failure :: "py_error option \<times> Analyser \<times> Argv \<Rightarrow> bool" where
  "soft_failure r =
     (case r of
        (Some (InvalidParam msg), analyser1, argv1) \<Rightarrow> \<not> is_arg_ctx (argv_context argv1)
      | other \<Rightarrow> False)"

fun soft_run ::
  "externals \<Rightarrow> Param list \<Rightarrow> pyval list \<Rightarrow> nat \<Rightarrow> Analyser \<Rightarrow> Argv
     \<Rightarrow> (Analyser \<times> Argv) option" where
  "soft_run E [] snap idx analyser argv = Some (analyser, argv)"
| "soft_run E (p # ps) snap idx analyser argv =
     (if soft_failure (attempt_param E analyser argv p None)
      then (case attempt_param E analyser argv p None of
              (err, analyser1, argv1) \<Rightarrow>
                soft_run E ps snap idx analyser1 (data_reset argv1 snap idx))
      else None)"

text \<open>
  \<open>analyse_param\<close>, one step of the dispatch. The branches are those of the source in its
  order: special option, entry of the dispatch table, compact parameters, main
  arguments, extra tokens.
\<close>

definition analyse_param ::
  "externals \<Rightarrow> Analyser \<Rightarrow> Argv \<Rightarrow> string list option \<Rightarrow> (py_error + bool) \<times> Analyser \<times> Argv" where
  "analyse_param E analyser argv seps =
     (case next_tok argv seps True of
        ((tok, str_flag), argv1) \<Rightarrow>
          (case special_trigger argv1 tok str_flag of
             Some kind \<Rightarrow> (Inl (SpecialOptionTriggered kind), analyser, argv1)
           | None \<Rightarrow>
               (case (if str_flag then dict_get (compile_params analyser) (py_str tok) else None) of
                  Some param \<Rightarrow>
                    (case attempt_param E analyser argv1 param (Some (py_str tok)) of
                       (Some e, analyser1, argv2) \<Rightarrow> (Inl e, analyser1, argv2)
                     | (None, analyser1, argv2) \<Rightarrow>
                         (Inr True, analyser1, argv2\<lparr>argv_context := CtxNone\<rparr>))
                | None \<Rightarrow>
                    (let argv2 = rollback argv1 tok False
                     in (case (if compact_params analyser \<noteq> []
                               then analyse_compact_params E analyser argv2
                               else (Inr False, analyser, argv2)) of
                           (Inl e, analyser1, argv3) \<Rightarrow> (Inl e, analyser1, argv3)
                         | (Inr True, analyser1, argv3) \<Rightarrow>
                             (Inr True, analyser1, argv3\<lparr>argv_context := CtxNone\<rparr>)
                         | (Inr False, analyser1, argv3) \<Rightarrow>
                             (case (if command_nargs analyser1 \<noteq> 0 \<and> args_result analyser1 = []
                                    then (case analyse_args E argv3 (self_args analyser1) of
                                            (Inl e, argv4) \<Rightarrow> (Inl e, analyser1, argv4)
                                          | (Inr d, argv4) \<Rightarrow>
                                              (Inr (d \<noteq> []), analyser1\<lparr>args_result := d\<rparr>, argv4))
                                    else (Inr False, analyser1, argv3)) of
                                (Inl e, analyser2, argv4) \<Rightarrow> (Inl e, analyser2, argv4)
                              | (Inr True, analyser2, argv4) \<Rightarrow>
                                  (Inr True, analyser2, argv4\<lparr>argv_context := CtxNone\<rparr>)
                              | (Inr False, analyser2, argv4) \<Rightarrow>
                                  if extra_allow analyser2
                                  then (Inr True,
                                        analyser2\<lparr>args_result :=
                                          dict_set ''$extra''
                                            (VList ((case dict_get (args_result analyser2) ''$extra'' of
                                                       Some (VList xs) \<Rightarrow> xs
                                                     | other \<Rightarrow> []) @ [tok]))
                                            (args_result analyser2)\<rparr>,
                                        snd (next_tok argv4 seps True))
                                  else (Inr False, analyser2, argv4)))))))"

text \<open>
  The wording of the specification for the compact form of a count option: the token is
  the dashes of the alias followed by \<open>k\<close> repetitions of the alias without its dashes,
  as \<open>-vvv\<close> is for the alias \<open>-v\<close> and \<open>k = 3\<close>.
\<close>

definition alias_repetition :: "string \<Rightarrow> string \<Rightarrow> nat \<Rightarrow> bool" where
  "alias_repetition al name k \<longleftrightarrow>
     0 < k \<and> name = takeWhile (\<lambda>c. c = CHR ''-'') al @ concat (replicate k (lstrip_dash al))"

text \<open>The test of the loop of a count option on one alias.\<close>

definition count_accepts :: "string \<Rightarrow> string \<Rightarrow> bool" where
  "count_accepts name al \<longleftrightarrow>
     startswith name al \<and> length (lstrip_dash al) dvd length (lstrip_dash name)"

definition count_option :: "string \<Rightarrow> string list \<Rightarrow> CmdOption" where
  "count_option n als =
     \<lparr>opt_name = n, opt_aliases = als, opt_dest = lstrip_dash n, opt_args = Args [] [] [] [] None,
      opt_separators = ['' ''], opt_action = \<lparr>act_type = 2, act_value = VInt 1\<rparr>,
      opt_compact = False, opt_nargs = 0\<rparr>"




section \<open>The header and _handlers.py: analyse_header, _handle_fuzzy\<close>

text \<open>
  \<open>HeadResult\<close>, and the header as \<open>analyse_header\<close> reads it. A prefix of \<open>header.origin[1]\<close>
  is a pair of an object and a string, a string, or another object; an object enters a
  header text through \<open>str\<close>. The command \<open>header.origin[0]\<close> is kept as its text.

  The matchers come from outside the sources at hand and are functions here: a compiled
  regular expression by what \<open>fullmatch\<close> gives (the group dictionary), the compact
  expression by what \<open>match\<close> gives (the matched prefix \<open>mat[0]\<close> and the group
  dictionary), a value pattern as before, and a \<open>Double\<close> by what its \<open>match\<close> gives: the
  origin, result, flag and groups of a \<open>HeadResult\<close> together with the stream after the
  roll-backs it made, or nothing, the stream then being untouched. The arguments of a
  \<open>Double\<close> are the two tokens, whether each is a string, and the compact flag.
\<close>

record HeadResult =
  hr_origin :: pyval
  hr_result :: pyval
  hr_matched :: bool
  hr_groups :: pydict
  hr_fixes :: "(string \<times> pattern) list"

datatype prefix = PrefixPair pyval string | PrefixStr string | PrefixObj pyval

datatype double_matcher =
  Double "pyval \<Rightarrow> pyval \<Rightarrow> bool \<Rightarrow> bool \<Rightarrow> bool \<Rightarrow> Argv
            \<Rightarrow> ((pyval \<times> pyval \<times> bool \<times> pydict) \<times> Argv) option"

datatype header_content =
    ContentSet "string list"
  | ContentRegex "string \<Rightarrow> pydict option"
  | ContentPattern pattern
  | ContentList "double_matcher list"
  | ContentDouble double_matcher

datatype compact_matcher =
    CompactRegex "string \<Rightarrow> (string \<times> pydict) option"
  | CompactPattern pattern
  | CompactNone

record Header =
  h_command :: string
  h_prefixes :: "prefix list"
  h_content :: header_content
  h_mapping :: "(string \<times> pattern) list"
  h_compact :: bool
  h_compact_pattern :: compact_matcher

text \<open>
  \<open>_handle_fuzzy\<close>: the header texts in the order of the prefixes, then the first of
  them whose similarity to the source reaches the threshold raises \<open>FuzzyMatchSuccess\<close>,
  whose message is formatted with \<open>source\<close> the header text and \<open>target\<close> the input. The
  function returns normally (\<open>None\<close>) when no header text reaches the threshold.
\<close>

definition headers_text :: "Header \<Rightarrow> string list" where
  "headers_text header =
     (if h_prefixes header = [] then [h_command header]
      else map (\<lambda>p. case p of
                  PrefixPair obj s \<Rightarrow> py_str obj @ '' '' @ s @ h_command header
                | PrefixStr s \<Rightarrow> s @ h_command header
                | PrefixObj obj \<Rightarrow> py_str obj @ '' '' @ h_command header)
             (h_prefixes header))"

fun fuzzy_loop :: "externals \<Rightarrow> string \<Rightarrow> real \<Rightarrow> string list \<Rightarrow> py_error option" where
  "fuzzy_loop E source threshold [] = None"
| "fuzzy_loop E source threshold (ht # hts) =
     (if threshold \<le> levenshtein E source ht then Some (FuzzyMatchSuccess ht source)
      else fuzzy_loop E source threshold hts)"

definition handle_fuzzy :: "externals \<Rightarrow> Header \<Rightarrow> string \<Rightarrow> real \<Rightarrow> py_error option" where
  "handle_fuzzy E header source threshold = fuzzy_loop E source threshold (headers_text header)"

text \<open>
  The first part of \<open>analyse_header\<close>, up to the last \<open>return\<close>: either a \<open>HeadResult\<close>, or
  no variant has matched and the two tokens read so far are handed on, each with its
  string flag. The loop over a list of pairs stops at the first pair that matches.
\<close>

datatype header_outcome =
    Matched HeadResult
  | NoMatch pyval bool pyval bool
  | Raised py_error

fun pairs_match ::
  "double_matcher list \<Rightarrow> pyval \<Rightarrow> pyval \<Rightarrow> bool \<Rightarrow> bool \<Rightarrow> bool \<Rightarrow> Argv
     \<Rightarrow> ((pyval \<times> pyval \<times> bool \<times> pydict) \<times> Argv) option" where
  "pairs_match [] head_text may_cmd s ms cflag argv = None"
| "pairs_match (Double f # rest) head_text may_cmd s ms cflag argv =
     (case f head_text may_cmd s ms cflag argv of
        Some r \<Rightarrow> Some r
      | None \<Rightarrow> pairs_match rest head_text may_cmd s ms cflag argv)"

definition head_of :: "(pyval \<times> pyval \<times> bool \<times> pydict) \<Rightarrow> (string \<times> pattern) list \<Rightarrow> HeadResult" where
  "head_of res mapping =
     \<lparr>hr_origin = fst res, hr_result = fst (snd res), hr_matched = fst (snd (snd res)),
      hr_groups = snd (snd (snd res)), hr_fixes = mapping\<rparr>"

definition header_second ::
  "Header \<Rightarrow> pyval \<Rightarrow> bool \<Rightarrow> Argv \<Rightarrow> header_outcome \<times> Argv" where
  "header_second header head_text str_flag argv =
     (case next_tok argv None True of
        ((may_cmd, m_str), argv1) \<Rightarrow>
          (case (case h_content header of
                   ContentList pairs \<Rightarrow>
                     if m_str
                     then pairs_match pairs head_text may_cmd str_flag m_str (h_compact header) argv1
                     else None
                 | ContentDouble (Double f) \<Rightarrow>
                     f head_text may_cmd str_flag m_str (h_compact header) argv1
                 | other \<Rightarrow> None) of
             Some (res, argv2) \<Rightarrow> (Matched (head_of res (h_mapping header)), argv2)
           | None \<Rightarrow> (NoMatch head_text str_flag may_cmd m_str, argv1)))"

definition header_pattern ::
  "Header \<Rightarrow> pyval \<Rightarrow> bool \<Rightarrow> Argv \<Rightarrow> header_outcome \<times> Argv" where
  "header_pattern header head_text str_flag argv =
     (case h_content header of
        ContentPattern p \<Rightarrow>
          (case pat_match p head_text of
             Some v \<Rightarrow>
               (Matched \<lparr>hr_origin = head_text, hr_result = v, hr_matched = True,
                         hr_groups = [], hr_fixes = h_mapping header\<rparr>, argv)
           | None \<Rightarrow>
               if h_compact header
               then (case h_compact_pattern header of
                       CompactPattern cp \<Rightarrow>
                         (case pat_match cp head_text of
                            Some v \<Rightarrow>
                              (Matched \<lparr>hr_origin = v, hr_result = v, hr_matched = True,
                                        hr_groups = [], hr_fixes = h_mapping header\<rparr>,
                               if str_flag
                               then rollback argv
                                      (VStr (drop (length (py_str v)) (py_str head_text))) True
                               else argv)
                          | None \<Rightarrow> header_second header head_text str_flag argv)
                     | other \<Rightarrow> (Raised (OtherError ''AttributeError''), argv))
               else header_second header head_text str_flag argv)
      | other \<Rightarrow> header_second header head_text str_flag argv)"

definition header_match :: "Header \<Rightarrow> Argv \<Rightarrow> header_outcome \<times> Argv" where
  "header_match header argv =
     (case next_tok argv None True of
        ((head_text, str_flag), argv1) \<Rightarrow>
          if str_flag
          then (case (case h_content header of
                        ContentSet names \<Rightarrow>
                          if py_str head_text \<in> set names then Some [] else None
                      | ContentRegex full \<Rightarrow> full (py_str head_text)
                      | other \<Rightarrow> None) of
                  Some groups \<Rightarrow>
                    (Matched \<lparr>hr_origin = head_text, hr_result = head_text, hr_matched = True,
                              hr_groups = groups, hr_fixes = h_mapping header\<rparr>, argv1)
                | None \<Rightarrow>
                    if h_compact header \<and>
                       (case h_content header of
                          ContentSet names \<Rightarrow> True | ContentRegex full \<Rightarrow> True | other \<Rightarrow> False)
                    then (case h_compact_pattern header of
                            CompactRegex start \<Rightarrow>
                              (case start (py_str head_text) of
                                 Some (m0, groups) \<Rightarrow>
                                   (Matched \<lparr>hr_origin = VStr m0, hr_result = VStr m0,
                                             hr_matched = True, hr_groups = groups,
                                             hr_fixes = h_mapping header\<rparr>,
                                    rollback argv1
                                      (VStr (drop (length m0) (py_str head_text))) True)
                               | None \<Rightarrow> header_pattern header head_text str_flag argv1)
                          | other \<Rightarrow> (Raised (OtherError ''AttributeError''), argv1))
                    else header_pattern header head_text str_flag argv1)
          else header_pattern header head_text str_flag argv1)"

text \<open>
  \<open>analyse_header\<close>: the matching part, then the failure path. With a string as first
  token the second token is put back, the fuzzy search runs when fuzzy matching is on,
  and \<open>InvalidParam\<close> is raised if it returns. The two other exits are those of a first
  token that is not a string.
\<close>

definition analyse_header :: "externals \<Rightarrow> Header \<Rightarrow> Argv \<Rightarrow> (py_error + HeadResult) \<times> Argv" where
  "analyse_header E header argv =
     (case header_match header argv of
        (Matched res, argv1) \<Rightarrow> (Inr res, argv1)
      | (Raised e, argv1) \<Rightarrow> (Inl e, argv1)
      | (NoMatch head_text str_flag may_cmd m_str, argv1) \<Rightarrow>
          if str_flag
          then (let argv2 = rollback argv1 may_cmd False
                in (case (if fuzzy_match argv2
                          then handle_fuzzy E header (py_str head_text) (fuzzy_threshold argv2)
                          else None) of
                      Some e \<Rightarrow> (Inl e, argv2)
                    | None \<Rightarrow> (Inl (InvalidParam (py_str head_text)), argv2)))
          else if m_str \<and> truthy may_cmd
          then (case (if fuzzy_match argv1
                      then handle_fuzzy E header (py_str head_text @ '' '' @ py_str may_cmd)
                             (fuzzy_threshold argv1)
                      else None) of
                  Some e \<Rightarrow> (Inl e, argv1)
                | None \<Rightarrow> (Inl (InvalidParam (py_str may_cmd)), argv1))
          else (Inl (InvalidParam (py_str head_text)), rollback argv1 may_cmd False))"

section \<open>_handlers.py: _handle_shortcut_reg\<close>

text \<open>
  The two regular expressions \<open>\{(\d+)\}\<close> and \<open>\{(\w+)\}\<close> and the string methods the
  function uses, over the ASCII characters: \<open>fullmatch\<close> gives the body of a unit that is a
  single slot, \<open>findall\<close> the bodies of the slots of a unit from left to right (a slot is
  an opening brace, a longest non-empty run of digits or of word characters, and a
  closing brace), \<open>replace\<close> rewrites every occurrence of a non-empty text from left to
  right, \<open>int\<close> reads a run of digits and \<open>str\<close> writes a number in decimal.
\<close>

definition digit_char :: "char \<Rightarrow> bool" where
  "digit_char c = (48 \<le> (of_char c :: nat) \<and> (of_char c :: nat) \<le> 57)"

definition word_char :: "char \<Rightarrow> bool" where
  "word_char c =
     (digit_char c \<or> c = CHR ''_'' \<or>
      (65 \<le> (of_char c :: nat) \<and> (of_char c :: nat) \<le> 90) \<or>
      (97 \<le> (of_char c :: nat) \<and> (of_char c :: nat) \<le> 122))"

definition slot_fullmatch :: "(char \<Rightarrow> bool) \<Rightarrow> string \<Rightarrow> string option" where
  "slot_fullmatch P unit =
     (case unit of
        [] \<Rightarrow> None
      | c # rest \<Rightarrow>
          if c = CHR ''{'' \<and> rest \<noteq> [] \<and> last rest = CHR ''}'' \<and>
             butlast rest \<noteq> [] \<and> list_all P (butlast rest)
          then Some (butlast rest) else None)"

function slot_findall :: "(char \<Rightarrow> bool) \<Rightarrow> string \<Rightarrow> string list" where
  "slot_findall P [] = []"
| "slot_findall P (c # s) =
     (if c = CHR ''{'' \<and> takeWhile P s \<noteq> [] \<and> dropWhile P s \<noteq> [] \<and>
         hd (dropWhile P s) = CHR ''}''
      then takeWhile P s # slot_findall P (tl (dropWhile P s))
      else slot_findall P s)"
  by pat_completeness auto

function str_replace :: "string \<Rightarrow> string \<Rightarrow> string \<Rightarrow> string" where
  "str_replace old new [] = []"
| "str_replace old new (c # s) =
     (if old \<noteq> [] \<and> startswith (c # s) old
      then new @ str_replace old new (drop (length old) (c # s))
      else c # str_replace old new s)"
  by pat_completeness auto

definition int_of_digits :: "string \<Rightarrow> nat" where
  "int_of_digits ds = foldl (\<lambda>n c. 10 * n + (of_char c - 48)) 0 ds"

text \<open>
  A slot is named by a group index or by a group name. The wrapper takes the slot and
  the captured text; \<open>wrapper(slot, text) or text\<close> keeps the text when the wrapper gives
  nothing true.
\<close>

datatype slot_ref = SlotIndex nat | SlotKey string

definition wrapped :: "(slot_ref \<Rightarrow> string \<Rightarrow> pyval) \<Rightarrow> slot_ref \<Rightarrow> string \<Rightarrow> pyval" where
  "wrapped wrapper slot captured =
     (if truthy (wrapper slot captured) then wrapper slot captured else VStr captured)"

definition slot_text :: "string \<Rightarrow> string" where
  "slot_text body = ''{'' @ body @ ''}''"

text \<open>
  The two loops over the slots found in a unit that is not a single slot. Each rewrites
  the unit as it stands after the rewrites before it. \<open>groups\<close> is \<open>mat.groups()\<close> and
  \<open>gdict\<close> is \<open>mat.groupdict()\<close>: a group that did not take part in the match is \<open>None\<close>.
\<close>

fun index_loop ::
  "string option list \<Rightarrow> (slot_ref \<Rightarrow> string \<Rightarrow> pyval) \<Rightarrow> string list \<Rightarrow> string \<Rightarrow> string" where
  "index_loop groups wrapper [] unit = unit"
| "index_loop groups wrapper (m # ms) unit =
     (let index = int_of_digits m; slot = slot_text (str_of_nat index)
      in if length groups \<le> index
         then index_loop groups wrapper ms (str_replace slot [] unit)
         else (case groups ! index of
                 None \<Rightarrow> index_loop groups wrapper ms (str_replace slot [] unit)
               | Some captured \<Rightarrow>
                   index_loop groups wrapper ms
                     (str_replace slot (py_str (wrapped wrapper (SlotIndex index) captured)) unit)))"

fun key_loop ::
  "(string \<times> string option) list \<Rightarrow> (slot_ref \<Rightarrow> string \<Rightarrow> pyval) \<Rightarrow> string list \<Rightarrow> string \<Rightarrow> string" where
  "key_loop gdict wrapper [] unit = unit"
| "key_loop gdict wrapper (key # keys) unit =
     (case map_of gdict key of
        None \<Rightarrow> key_loop gdict wrapper keys (str_replace (slot_text key) [] unit)
      | Some None \<Rightarrow> key_loop gdict wrapper keys (str_replace (slot_text key) [] unit)
      | Some (Some captured) \<Rightarrow>
          key_loop gdict wrapper keys
            (str_replace (slot_text key) (py_str (wrapped wrapper (SlotKey key) captured)) unit))"

text \<open>
  What one unit of \<open>argv.raw_data\<close> adds to \<open>data\<close>. \<open>escape\<close> and \<open>unescape\<close> belong to
  \<open>_util.py\<close>, which is not among the sources, and are parameters.
\<close>

definition shortcut_reg_unit ::
  "(string \<Rightarrow> string) \<Rightarrow> (string \<Rightarrow> string) \<Rightarrow> string option list \<Rightarrow> (string \<times> string option) list
     \<Rightarrow> (slot_ref \<Rightarrow> string \<Rightarrow> pyval) \<Rightarrow> pyval \<Rightarrow> pyval list" where
  "shortcut_reg_unit escape unescape groups gdict wrapper tok =
     (case tok of
        VStr raw \<Rightarrow>
          (let unit = escape raw
           in (case slot_fullmatch digit_char unit of
                 Some body \<Rightarrow>
                   (let index = int_of_digits body
                    in if length groups \<le> index then []
                       else (case groups ! index of
                               None \<Rightarrow> []
                             | Some captured \<Rightarrow> [wrapped wrapper (SlotIndex index) captured]))
               | None \<Rightarrow>
                   (case slot_fullmatch word_char unit of
                      Some key \<Rightarrow>
                        (case map_of gdict key of
                           None \<Rightarrow> []
                         | Some None \<Rightarrow> []
                         | Some (Some captured) \<Rightarrow> [wrapped wrapper (SlotKey key) captured])
                    | None \<Rightarrow>
                        (let unit1 = index_loop groups wrapper (slot_findall digit_char unit) unit;
                             unit2 = key_loop gdict wrapper (slot_findall word_char unit1) unit1
                         in if unit2 \<noteq> [] then [VStr (unescape unit2)] else []))))
      | other \<Rightarrow> [other])"

definition handle_shortcut_reg ::
  "(string \<Rightarrow> string) \<Rightarrow> (string \<Rightarrow> string) \<Rightarrow> Argv \<Rightarrow> string option list
     \<Rightarrow> (string \<times> string option) list \<Rightarrow> (slot_ref \<Rightarrow> string \<Rightarrow> pyval) \<Rightarrow> pyval list" where
  "handle_shortcut_reg escape unescape argv groups gdict wrapper =
     concat (map (shortcut_reg_unit escape unescape groups gdict wrapper) (raw_data argv))"

section \<open>Concrete configurations for the examples\<close>

text \<open>
  The externals of the examples, whose streams have fuzzy matching off and whose aliases
  hold no metacharacter, so that neither the similarity nor the regular expressions of
  the library are asked. A stream over given tokens and parameter ids, with the default
  separator, the built-in special options enabled and fuzzy matching off; the converter
  wraps the released tokens in a list.
\<close>

definition example_externals :: externals where
  "example_externals =
     \<lparr>levenshtein = (\<lambda>s t. 0),
      alias_fullmatch = (\<lambda>al name. Inr None),
      remainders = [],
      kwonly_key = (\<lambda>s seps crlf. s),
      step_keyword = (\<lambda>argv args result. (Inr result, argv)),
      step_varkey = (\<lambda>argv slot result. (Inr result, argv))\<rparr>"

definition example_argv :: "pyval list \<Rightarrow> string list \<Rightarrow> Argv" where
  "example_argv toks pids =
     \<lparr>raw_data = toks, bak_data = toks, current_index = 0, ndata = length toks,
      separators = ['' ''], sep_pending = None,
      special = [(''--help'', ''help''), (''--comp'', ''completion'')],
      disable_builtin_options = [], param_ids = pids,
      fuzzy_match = False, fuzzy_threshold = 6 / 10, filter_crlf = True,
      argv_context = CtxNone, converter = VList\<rparr>"

text \<open>
  The patterns of the examples: any string, the wildcard \<open>AllParam\<close>, and the integers,
  which a string matches in full against \<open>\-?\d+\<close>, the expression _header.py lists for
  \<open>int\<close>.
\<close>

definition str_pattern :: pattern where
  "str_pattern = \<lparr>pat_alias = ''str'', pat_id = STRING, pat_match = (\<lambda>v. Some v)\<rparr>"

definition all_param :: pattern where
  "all_param = \<lparr>pat_alias = ''*'', pat_id = ANY, pat_match = (\<lambda>v. Some v)\<rparr>"

definition int_pattern :: pattern where
  "int_pattern =
     \<lparr>pat_alias = ''int'', pat_id = OtherPattern,
      pat_match = (\<lambda>v. case v of
                     VStr s \<Rightarrow>
                       if take 1 s = ''-''
                       then (if drop 1 s \<noteq> [] \<and> list_all digit_char (drop 1 s)
                             then Some (VInt (- int (int_of_digits (drop 1 s))))
                             else None)
                       else if s \<noteq> [] \<and> list_all digit_char s
                       then Some (VInt (int (int_of_digits s)))
                       else None
                   | VInt i \<Rightarrow> Some (VInt i)
                   | other \<Rightarrow> None)\<rparr>"

definition example_arg :: "string \<Rightarrow> pattern \<Rightarrow> bool \<Rightarrow> pyval option \<Rightarrow> Arg" where
  "example_arg n p opt d =
     \<lparr>arg_name = n, arg_value = p, arg_separators = ['' ''], arg_optional = opt, arg_default = d\<rparr>"

text \<open>An analyser of a scope with the given compact parameters and dispatch table.\<close>

definition example_analyser :: "Param list \<Rightarrow> (string \<times> Param) list \<Rightarrow> Analyser" where
  "example_analyser cps table =
     \<lparr>options_result = [], subcommands_result = [], compact_params = cps,
      compile_params = table, args_result = [], self_args = Args [] [] [] [] None,
      command_nargs = 0, extra_allow = False\<rparr>"

text \<open>
  A compact store option with one alias: without arguments, or with the given normal
  arguments.
\<close>

definition compact_option :: "string \<Rightarrow> Arg list \<Rightarrow> CmdOption" where
  "compact_option n normals =
     \<lparr>opt_name = n, opt_aliases = [n], opt_dest = lstrip_dash n,
      opt_args = Args normals [] [] [] None,
      opt_separators = ['' ''], opt_action = \<lparr>act_type = 0, act_value = VNone\<rparr>,
      opt_compact = True, opt_nargs = length normals\<rparr>"

text \<open>
  The externals with the similarity of util.py for \<open>levenshtein\<close>, and a stream with fuzzy
  matching switched on.
\<close>

definition fuzzy_externals :: externals where
  "fuzzy_externals =
     example_externals
       \<lparr>levenshtein := (\<lambda>s t. case levenshtein_norm s t of Inr v \<Rightarrow> v | Inl e \<Rightarrow> 0)\<rparr>"

text \<open>
  The headers \<open>Header.generate\<close> builds for a command that is a plain string, not
  compact: without prefixes the content is the set of the command alone; with string
  prefixes it is the set of the texts \<open>f"{h}{_cmd}"\<close>. The compact expression is the
  alternation of the prefixes followed by the command, anchored at the start.
\<close>

definition plain_header :: "string \<Rightarrow> Header" where
  "plain_header cmd =
     \<lparr>h_command = cmd, h_prefixes = [], h_content = ContentSet [cmd], h_mapping = [],
      h_compact = False,
      h_compact_pattern = CompactRegex (\<lambda>s. if startswith s cmd then Some (cmd, []) else None)\<rparr>"

definition prefixed_header :: "string \<Rightarrow> string list \<Rightarrow> Header" where
  "prefixed_header cmd prefs =
     \<lparr>h_command = cmd, h_prefixes = map PrefixStr prefs,
      h_content = ContentSet (map (\<lambda>h. h @ cmd) prefs), h_mapping = [],
      h_compact = False,
      h_compact_pattern =
        CompactRegex (\<lambda>s. map_option (\<lambda>m. (m, []))
                              (find (startswith s) (map (\<lambda>h. h @ cmd) prefs)))\<rparr>"

section \<open>Termination of the loop of step_varpos\<close>

text \<open>
  A \<open>next\<close> that yields a non-empty token either advances the index or leaves a
  shorter remainder in the slot; in both cases the weight of the stream drops.
\<close>

lemma weight_advance:
  assumes "i < length xs"
  shows "sum_list (map tok_weight (drop (Suc i) xs)) < sum_list (map tok_weight (drop i xs))"
proof -
  have "drop i xs = xs ! i # drop (Suc i) xs" using assms by (simp add: Cons_nth_drop_Suc)
  moreover have "0 < tok_weight (xs ! i)" by (cases "xs ! i") simp_all
  ultimately show ?thesis by simp
qed

lemma weight_cut:
  assumes "i < length xs" and "xs ! i = VStr s" and "length rest < length s"
  shows "sum_list (map tok_weight (drop i (xs[i := VStr rest]))) < sum_list (map tok_weight (drop i xs))"
proof -
  have a: "drop i xs = VStr s # drop (Suc i) xs"
    using assms(1,2) by (metis Cons_nth_drop_Suc)
  have b: "drop i (xs[i := VStr rest]) = VStr rest # drop (Suc i) xs"
    using assms(1) by (simp add: upd_conv_take_nth_drop)
  show ?thesis using assms(3) by (simp add: a b)
qed

lemma next_tok_weight:
  assumes "next_tok argv seps True = ((tok, sf), argv1)" and "truthy tok"
  shows "argv_weight argv1 < argv_weight argv"
proof -
  let ?i = "current_index argv"
  have notend: "\<not> (?i = ndata argv \<or> length (raw_data argv) \<le> ?i)"
    using assms by (auto simp: next_tok_def)
  then have lt: "?i < length (raw_data argv)" by simp
  note adv = weight_advance[OF lt] 
  show ?thesis
  proof (cases "raw_data argv ! ?i")
    case (VStr s)
    show ?thesis
    proof (cases seps)
      case None
      then show ?thesis using assms(1) notend VStr adv
        by (auto simp: next_tok_def Let_def argv_weight_def)
    next
      case (Some sp)
      show ?thesis
      proof (cases "set sp = set (separators argv)")
        case True
        then show ?thesis using assms(1) notend VStr Some adv
          by (auto simp: next_tok_def Let_def argv_weight_def)
      next
        case False
        obtain front rest where so: "split_once s sp = (front, rest)" by (cases "split_once s sp")
        have rest: "rest = drop (length front + 1) s" using so by (auto simp: split_once_def Let_def)
        show ?thesis
        proof (cases "rest = []")
          case True
          then show ?thesis using assms(1) notend VStr Some False so adv
            by (auto simp: next_tok_def Let_def argv_weight_def)
        next
          case ne: False
          then have "length rest < length s" using rest by auto
          from weight_cut[OF lt VStr this]
          show ?thesis using assms(1) notend VStr Some False so ne
            by (auto simp: next_tok_def Let_def argv_weight_def)
        qed
      qed
    qed
  qed (use assms(1) notend adv in \<open>auto simp: next_tok_def Let_def argv_weight_def\<close>)
qed

termination varpos_loop
  apply (relation "measure (\<lambda>(E, args, val, arg, argv, acc, cnt). argv_weight argv)")
   apply simp
  apply (auto intro: next_tok_weight[OF sym])
  done

section \<open>Facts about the token stream\<close>

text \<open>
  On a well-formed stream, a \<open>next\<close> with the separators of the stream yields the whole
  pending token and advances the index by one. The tests on a token read only the
  tables of the stream, not its position.
\<close>

lemma next_tok_whole:
  assumes "ndata argv = length (raw_data argv)" and "current_index argv < ndata argv"
    and "set seps = set (separators argv)"
  shows "next_tok argv (Some seps) True =
           ((raw_data argv ! current_index argv, is_str (raw_data argv ! current_index argv)),
            argv\<lparr>sep_pending := None, current_index := current_index argv + 1\<rparr>)"
  using assms by (cases "raw_data argv ! current_index argv") (auto simp: next_tok_def Let_def)

lemma special_trigger_cong:
  "special a = special b \<Longrightarrow> disable_builtin_options a = disable_builtin_options b \<Longrightarrow>
   special_trigger a t s = special_trigger b t s"
  by (auto simp: special_trigger_def split: pyval.splits option.splits)

lemma in_param_ids_cong:
  "param_ids a = param_ids b \<Longrightarrow> in_param_ids a t s = in_param_ids b t s"
  by (simp add: in_param_ids_def split: pyval.splits)

text \<open>The integer pattern of the examples on the tokens they use.\<close>

lemma int_pattern_eval:
  "pat_alias int_pattern = ''int''"
  "pat_id int_pattern = OtherPattern"
  "pat_match int_pattern (VStr ''abc'') = None"
  "pat_match int_pattern (VStr ''5'') = Some (VInt 5)"
  "pat_match int_pattern (VStr ''-5'') = Some (VInt (- 5))"
  by (simp_all add: int_pattern_def digit_char_def int_of_digits_def)

section \<open>Termination of the scans of _handle_shortcut_reg\<close>

termination slot_findall
proof (relation "measure (\<lambda>(P, s). length s)")
  show "wf (measure (\<lambda>(P, s). length s))" by simp
next
  fix P :: "char \<Rightarrow> bool" and c :: char and s :: string
  have "length (tl (dropWhile P s)) \<le> length s"
    using length_dropWhile_le[of P s] by simp
  then show "((P, tl (dropWhile P s)), P, c # s) \<in> measure (\<lambda>(P, s). length s)"
    by simp
next
  fix P :: "char \<Rightarrow> bool" and c :: char and s :: string
  show "((P, s), P, c # s) \<in> measure (\<lambda>(P, s). length s)" by simp
qed

termination str_replace
proof (relation "measure (\<lambda>(old, new, s). length s)")
  show "wf (measure (\<lambda>(old, new, s). length s))" by simp
next
  fix old new :: string and c :: char and s :: string
  assume "old \<noteq> [] \<and> startswith (c # s) old"
  then have "0 < length old" by simp
  then show "((old, new, drop (length old) (c # s)), old, new, c # s)
               \<in> measure (\<lambda>(old, new, s). length s)"
    by (cases old) simp_all
next
  fix old new :: string and c :: char and s :: string
  show "((old, new, s), old, new, c # s) \<in> measure (\<lambda>(old, new, s). length s)" by simp
qed

section \<open>LruCache: the size bound and the eviction order\<close>

lemma lru_inv_init: "lru_inv (LruCache_init m)"
  by (simp add: lru_inv_def LruCache_init_def)

lemma lru_inv_clear: "lru_inv s \<Longrightarrow> lru_inv (clear s)"
  by (auto simp: lru_inv_def clear_def)

lemma distinct_filter_fst: "distinct (map fst od) \<Longrightarrow> distinct (map fst (filter P od))"
  by (induction od) auto

lemma fst_set_filter_neq: "fst ` set (filter (\<lambda>kv. fst kv \<noteq> k) od) = fst ` set od - {k}"
  by (induction od) auto

lemma move_to_end_props:
  assumes "distinct (map fst od)"
  shows "distinct (map fst (move_to_end od k))"
    and "fst ` set (move_to_end od k) = fst ` set od"
    and "length (move_to_end od k) = length od"
proof -
  show "distinct (map fst (move_to_end od k))"
    using assms by (auto simp: move_to_end_def distinct_filter_fst split: option.splits)
  show "fst ` set (move_to_end od k) = fst ` set od"
    by (auto simp: move_to_end_def split: option.splits dest: map_of_SomeD) (force dest: map_of_SomeD)
  show "length (move_to_end od k) = length od"
  proof (cases "map_of od k")
    case None then show ?thesis by (simp add: move_to_end_def)
  next
    case (Some v)
    have "length (filter (\<lambda>kv. fst kv \<noteq> k) od) + length (filter (\<lambda>kv. \<not> fst kv \<noteq> k) od) = length od"
      by (rule sum_length_filter_compl)
    moreover have "filter (\<lambda>kv. \<not> fst kv \<noteq> k) od = [(k, v)]"
      using assms Some
    proof (induction od)
      case Nil then show ?case by simp
    next
      case (Cons a od)
      then show ?case
        by (cases a) (auto simp: filter_empty_conv split: if_splits dest: map_of_SomeD
            intro: rev_image_eqI)
    qed
    ultimately show ?thesis using Some by (simp add: move_to_end_def)
  qed
qed

lemma lru_inv_getitem: "lru_inv s \<Longrightarrow> lru_inv (snd (getitem s k))"
  by (auto simp: lru_inv_def getitem_def has_def move_to_end_props split: option.splits)

lemma lru_inv_get: "lru_inv s \<Longrightarrow> lru_inv (snd (get s k d))"
  using lru_inv_getitem[of s k] by (auto simp: get_def split: prod.splits sum.splits)

lemma lru_inv_delete: "lru_inv s \<Longrightarrow> lru_inv (snd (delete s k))"
proof -
  assume inv: "lru_inv s"
  have "int (length (filter (\<lambda>kv. fst kv \<noteq> k) (cache s))) \<le> int (length (cache s))"
    by simp
  also have "\<dots> \<le> size_priv s" using inv by (simp add: lru_inv_def)
  finally have len: "int (length (filter (\<lambda>kv. fst kv \<noteq> k) (cache s))) \<le> size_priv s" .
  show ?thesis
  proof (cases "has s k")
    case False then show ?thesis using inv by (simp add: delete_def)
  next
    case True
    then have "k \<in> dom (record_tbl s)"
      using inv by (simp add: lru_inv_def has_def)
    then obtain r where r: "record_tbl s k = Some r" by blast
    have "0 < max_size s \<longrightarrow> size_priv s \<le> max_size s"
      using inv True by (auto simp: lru_inv_def has_def)
    then show ?thesis
      using inv True r len
      by (auto simp: lru_inv_def delete_def od_pop_def Let_def distinct_filter_fst fst_set_filter_neq)
  qed
qed

lemma lru_inv_set: "lru_inv s \<Longrightarrow> lru_inv (snd (set_item s k v e now))"
proof -
  assume inv: "lru_inv s"
  show ?thesis
  proof (cases "has s k")
    case True then show ?thesis using inv by (simp add: set_item_def)
  next
    case nk: False
    show ?thesis
    proof (cases "0 < max_size s \<and> max_size s < size_priv s + 1")
      case False
      then show ?thesis using inv nk
        by (auto simp: lru_inv_def set_item_def has_def Let_def)
    next
      case ev: True
      show ?thesis
      proof (cases "cache s")
        case Nil
        then show ?thesis using inv nk ev
          by (auto simp: lru_inv_def set_item_def has_def Let_def)
      next
        case (Cons a rest)
        obtain k0 v0 where a: "a = (k0, v0)" by (cases a)
        have "k0 \<in> dom (record_tbl s)"
          using inv Cons a by (simp add: lru_inv_def)
        then obtain r where r: "record_tbl s k0 = Some r" by blast
        have sz: "size_priv s \<le> max_size s"
          using inv Cons ev by (auto simp: lru_inv_def)
        show ?thesis using inv nk ev Cons a r sz
          by (auto simp: lru_inv_def set_item_def has_def Let_def)
      qed
    qed
  qed
qed

lemma lru_inv_step: "lru_inv s \<Longrightarrow> lru_inv (lru_step s op)"
  by (cases op) (simp_all add: lru_inv_set lru_inv_get lru_inv_getitem lru_inv_delete lru_inv_clear)

lemma max_size_step: "max_size (lru_step s op) = max_size s"
  by (cases op) (auto simp: set_item_def get_def getitem_def delete_def clear_def Let_def
      split: list.splits option.splits prod.splits sum.splits)

lemma lru_inv_run: "lru_inv s \<Longrightarrow> lru_inv (lru_run ops s)"
  unfolding lru_run_def by (induction ops arbitrary: s) (simp_all add: lru_inv_step)

lemma max_size_run: "max_size (lru_run ops s) = max_size s"
  unfolding lru_run_def by (induction ops arbitrary: s) (simp_all add: max_size_step)

lemma use_ordered_later: "use_ordered u t od \<Longrightarrow> use_ordered u (Suc t) od"
  by (auto simp: use_ordered_def list_all_iff split: option.splits)

lemma use_ordered_filter: "use_ordered u t od \<Longrightarrow> use_ordered u t (filter P od)"
  by (auto simp: use_ordered_def list_all_iff sorted_wrt_filter)

lemma use_ordered_tl: "use_ordered u t od \<Longrightarrow> use_ordered u t (tl od)"
  by (cases od) (auto simp: use_ordered_def)

lemma use_ordered_append:
  assumes "use_ordered u t od" and "k \<notin> fst ` set od"
  shows "use_ordered (u(k \<mapsto> t)) (Suc t) (od @ [(k, v)])"
proof -
  have old: "\<exists>n. u (fst kv) = Some n \<and> n < t" if "kv \<in> set od" for kv
    using assms(1) that by (auto simp: use_ordered_def list_all_iff split: option.splits)
  have ne: "fst kv \<noteq> k" if "kv \<in> set od" for kv
    using assms(2) that by auto
  have "sorted_wrt (\<lambda>a b. used_before u (fst a) (fst b)) od"
    using assms(1) by (simp add: use_ordered_def)
  then have "sorted_wrt (\<lambda>a b. used_before (u(k \<mapsto> t)) (fst a) (fst b)) od"
  proof (rule sorted_wrt_mono_rel[rotated])
    fix a b assume "a \<in> set od" and "b \<in> set od" and "used_before u (fst a) (fst b)"
    then show "used_before (u(k \<mapsto> t)) (fst a) (fst b)"
      using ne[of a] ne[of b] by (auto simp: used_before_def split: option.splits)
  qed
  moreover have "used_before (u(k \<mapsto> t)) (fst kv) k" if "kv \<in> set od" for kv
    using old[OF that] ne[OF that] by (auto simp: used_before_def)
  moreover have "case (u(k \<mapsto> t)) (fst kv) of None \<Rightarrow> False | Some n \<Rightarrow> n < Suc t"
    if "kv \<in> set od" for kv
    using old[OF that] ne[OF that] by auto
  ultimately show ?thesis
    by (auto simp: use_ordered_def list_all_iff sorted_wrt_append)
qed

lemma set_item_cache:
  "\<not> has s k \<Longrightarrow>
   cache (snd (set_item s k v e now)) = cache s @ [(k, v)] \<or>
   cache (snd (set_item s k v e now)) = tl (cache s @ [(k, v)])"
  by (auto simp: set_item_def Let_def split: list.splits option.splits)

lemma use_ordered_step:
  assumes "use_ordered u t (cache s)"
  shows "use_ordered (stamp u t (uses_key s op)) (Suc t) (cache (lru_step s op))"
proof (cases op)
  case (OpSet k v e now)
  show ?thesis
  proof (cases "has s k")
    case True
    then show ?thesis using assms OpSet by (simp add: stamp_def set_item_def use_ordered_later)
  next
    case False
    then have "k \<notin> fst ` set (cache s)" by (simp add: has_def)
    then have app: "use_ordered (u(k \<mapsto> t)) (Suc t) (cache s @ [(k, v)])"
      using assms by (rule use_ordered_append[rotated])
    then have "use_ordered (u(k \<mapsto> t)) (Suc t) (tl (cache s @ [(k, v)]))"
      by (rule use_ordered_tl)
    then show ?thesis
      using set_item_cache[OF False, of v e now] app False OpSet by (auto simp: stamp_def)
  qed
next
  case (OpDelete k)
  then show ?thesis
    using assms use_ordered_later[OF use_ordered_filter[OF assms]] use_ordered_later[OF assms]
    by (auto simp: stamp_def delete_def od_pop_def Let_def split: option.splits)
next
  case OpClear
  then show ?thesis by (simp add: stamp_def clear_def use_ordered_def)
next
  case (OpGet k d)
  have "use_ordered (stamp u t (if has s k then Some k else None)) (Suc t)
          (cache (snd (getitem s k)))"
  proof (cases "has s k")
    case False
    then show ?thesis using assms by (simp add: stamp_def getitem_def use_ordered_later)
  next
    case True
    then obtain v where v: "map_of (cache s) k = Some v"
      by (metis has_def map_of_eq_None_iff not_Some_eq)
    have "k \<notin> fst ` set (filter (\<lambda>kv. fst kv \<noteq> k) (cache s))" by auto
    then have "use_ordered (u(k \<mapsto> t)) (Suc t) (filter (\<lambda>kv. fst kv \<noteq> k) (cache s) @ [(k, v)])"
      using use_ordered_filter[OF assms] by (rule use_ordered_append[rotated])
    then show ?thesis using True v by (simp add: stamp_def getitem_def move_to_end_def)
  qed
  then show ?thesis using OpGet by (auto simp: get_def split: prod.splits sum.splits)
next
  case (OpGetItem k)
  show ?thesis
  proof (cases "has s k")
    case False
    then show ?thesis using assms OpGetItem by (simp add: stamp_def getitem_def use_ordered_later)
  next
    case True
    then obtain v where v: "map_of (cache s) k = Some v"
      by (metis has_def map_of_eq_None_iff not_Some_eq)
    have "k \<notin> fst ` set (filter (\<lambda>kv. fst kv \<noteq> k) (cache s))" by auto
    then have "use_ordered (u(k \<mapsto> t)) (Suc t) (filter (\<lambda>kv. fst kv \<noteq> k) (cache s) @ [(k, v)])"
      using use_ordered_filter[OF assms] by (rule use_ordered_append[rotated])
    then show ?thesis using True v OpGetItem by (simp add: stamp_def getitem_def move_to_end_def)
  qed
qed

lemma use_ordered_run:
  "use_ordered u t (cache s) \<Longrightarrow>
   use_ordered (use_log ops s t u) (t + length ops) (cache (lru_run ops s))"
  unfolding lru_run_def
proof (induction ops arbitrary: s t u)
  case Nil
  then show ?case by simp
next
  case (Cons op ops)
  have "use_ordered (stamp u t (uses_key s op)) (Suc t) (cache (lru_step s op))"
    using Cons.prems by (rule use_ordered_step)
  then show ?case using Cons.IH by fastforce
qed

lemma use_ordered_hd:
  "use_ordered u t od \<Longrightarrow> od \<noteq> [] \<Longrightarrow> least_recently_used u od (fst (hd od))"
  by (cases od) (auto simp: use_ordered_def least_recently_used_def list_all_iff)

text \<open>
  Claim C10. A cache built with \<open>max_size > 0\<close> never holds more than \<open>max_size\<close>
  entries, whatever sequence of \<open>set\<close>, \<open>get\<close>, \<open>__getitem__\<close>, \<open>delete\<close> and
  \<open>clear\<close> it has gone through. A \<open>set\<close> of a new key into a full cache raises nothing and
  evicts exactly one entry, the first of the order, and this entry is the least recently
  used one: among the cached keys its last use, the insertion or the last read that found
  it, comes before the last use of every other. Every other entry keeps its place and the
  new entry comes last.
\<close>

theorem LruCache_bounded_and_evicts_oldest:
  assumes "0 < m" and "s = lru_run ops (LruCache_init m)"
  shows "int (length (cache s)) \<le> m \<and>
         (int (length (cache s)) = m \<longrightarrow> \<not> has s key \<longrightarrow>
            (case set_item s key val expiration now of
               (err, s') \<Rightarrow> err = None \<and> cache s' = tl (cache s) @ [(key, val)] \<and>
                  int (length (cache s')) = m \<and>
                  least_recently_used (last_use ops m) (cache s) (fst (hd (cache s))) \<and>
                  \<not> has s' (fst (hd (cache s)))))"
proof -
  have inv: "lru_inv s" using assms(2) by (simp add: lru_inv_run lru_inv_init)
  have ms: "max_size s = m" using assms(2) by (simp add: max_size_run LruCache_init_def)
  have "use_ordered Map.empty 0 (cache (LruCache_init m :: ('a, 'b) LruCache))"
    by (simp add: use_ordered_def LruCache_init_def)
  then have ord: "use_ordered (last_use ops m) (0 + length ops) (cache s)"
    unfolding last_use_def assms(2) by (rule use_ordered_run)
  have bound: "int (length (cache s)) \<le> m"
    using inv ms assms(1) by (auto simp: lru_inv_def)
  moreover have "case set_item s key val expiration now of
               (err, s') \<Rightarrow> err = None \<and> cache s' = tl (cache s) @ [(key, val)] \<and>
                  int (length (cache s')) = m \<and>
                  least_recently_used (last_use ops m) (cache s) (fst (hd (cache s))) \<and>
                  \<not> has s' (fst (hd (cache s)))"
    if full: "int (length (cache s)) = m" and nk: "\<not> has s key"
  proof -
    obtain a rest where c: "cache s = a # rest" using full assms(1) by (cases "cache s") auto
    obtain k0 v0 where a: "a = (k0, v0)" by (cases a)
    have "k0 \<in> dom (record_tbl s)"
      using inv c a by (simp add: lru_inv_def)
    then obtain r where r: "record_tbl s k0 = Some r" by blast
    have sz: "size_priv s = m" using inv c ms full by (auto simp: lru_inv_def)
    have lru: "least_recently_used (last_use ops m) (cache s) (fst (hd (cache s)))"
      using ord c by (intro use_ordered_hd) auto
    have gone: "k0 \<notin> fst ` set rest" "k0 \<noteq> key"
      using inv c a nk by (auto simp: lru_inv_def has_def)
    have res: "set_item s key val expiration now
                 = (None, s\<lparr>cache := rest @ [(key, val)],
                            record_tbl := ((record_tbl s)(k0 := None))(key \<mapsto> (now, expiration))\<rparr>)"
      using nk c a r sz ms full assms(1) by (auto simp: set_item_def Let_def)
    show ?thesis
      unfolding res using c a lru gone full by (auto simp: has_def)
  qed
  ultimately show ?thesis by blast
qed

theorem LruCache_bounded_and_evicts_oldest_witness:
  "(0::int) < 2 \<and>
   cache (lru_run [OpSet 1 10 0 0, OpSet 2 20 0 1, OpGet 1 0] (LruCache_init 2 :: (nat, nat) LruCache))
     = [(2, 20), (1, 10)] \<and>
   \<not> has (lru_run [OpSet 1 10 0 0, OpSet 2 20 0 1, OpGet 1 0] (LruCache_init 2 :: (nat, nat) LruCache)) 3 \<and>
   last_use [OpSet 1 10 0 0, OpSet 2 20 0 1, OpGet 1 (0::nat)] 2 (1::nat) = Some 2 \<and>
   last_use [OpSet 1 10 0 0, OpSet 2 20 0 1, OpGet 1 (0::nat)] 2 (2::nat) = Some 1 \<and>
   least_recently_used (last_use [OpSet 1 10 0 0, OpSet 2 20 0 1, OpGet 1 (0::nat)] 2)
     [(2::nat, 20::nat), (1, 10)] 2 \<and>
   set_item (lru_run [OpSet 1 10 0 0, OpSet 2 20 0 1, OpGet 1 0] (LruCache_init 2 :: (nat, nat) LruCache))
          3 30 0 2
     = (None,
        \<lparr>max_size = 2, cache = [(1, 10), (3, 30)],
         record_tbl = [1 \<mapsto> (0, 0), 3 \<mapsto> (2, 0)], size_priv = 2\<rparr>)"
proof -
  define ops where "ops = [OpSet (1::nat) (10::nat) 0 0, OpSet 2 20 0 1, OpGet 1 0]"
  define s where "s = lru_run ops (LruCache_init 2)"
  have sv: "s = \<lparr>max_size = 2, cache = [(2, 20), (1, 10)],
                 record_tbl = [1 \<mapsto> (0, 0), 2 \<mapsto> (1, 0)], size_priv = 2\<rparr>"
    unfolding s_def ops_def
    by (simp add: lru_run_def LruCache_init_def set_item_def get_def getitem_def has_def
        move_to_end_def Let_def)
  have c: "cache s = [(2, 20), (1, 10)]" by (simp add: sv)
  have nh: "\<not> has s 3" using c by (simp add: has_def)
  have full: "int (length (cache s)) = 2" using c by simp
  have lu: "last_use ops 2 1 = Some 2" "last_use ops 2 2 = Some 1"
    unfolding ops_def
    by (simp_all add: last_use_def stamp_def LruCache_init_def set_item_def get_def getitem_def
        has_def move_to_end_def Let_def)
  have "case set_item s 3 30 0 2 of
          (err, s') \<Rightarrow> err = None \<and> cache s' = tl (cache s) @ [(3, 30)] \<and>
            int (length (cache s')) = 2 \<and>
            least_recently_used (last_use ops 2) (cache s) (fst (hd (cache s))) \<and>
            \<not> has s' (fst (hd (cache s)))"
    using LruCache_bounded_and_evicts_oldest [of 2 s ops 3 30 0 2] full nh s_def by simp
  then have lru: "least_recently_used (last_use ops 2) [(2::nat, 20::nat), (1, 10)] 2"
    unfolding c by (auto split: prod.splits)
  have st: "set_item s 3 30 0 2
     = (None,
        \<lparr>max_size = 2, cache = [(1, 10), (3, 30)],
         record_tbl = [1 \<mapsto> (0, 0), 3 \<mapsto> (2, 0)], size_priv = 2\<rparr>)"
    unfolding sv by (auto simp: set_item_def has_def Let_def)
  show ?thesis
    using c nh lu lru st unfolding s_def ops_def by simp
qed

section \<open>levenshtein_norm: range of the similarity\<close>

lemma fold_upt_invariant:
  assumes "a \<le> b" and "P a x"
    and "\<And>k y. a \<le> k \<Longrightarrow> k < b \<Longrightarrow> P k y \<Longrightarrow> P (Suc k) (f k y)"
  shows "P b (fold f [a..<b] x)"
  using assms(1)
proof (induction b rule: dec_induct)
  case base
  then show ?case using assms(2) by simp
next
  case (step n)
  then show ?case using assms(3) by simp
qed

lemma cell_distance_0_right [simp]: "cell_distance s t i 0 = i"
  by (cases i) simp_all

lemma init_matrix_length: "length (init_matrix l_s l_t) = l_s + 1"
  by (simp add: init_matrix_def del: upt_Suc)

lemma init_matrix_row_length: "a \<le> l_s \<Longrightarrow> length (init_matrix l_s l_t ! a) = l_t + 1"
  by (simp add: init_matrix_def less_Suc_eq_le del: upt_Suc)

lemma init_matrix_nth:
  "a \<le> l_s \<Longrightarrow> b \<le> l_t \<Longrightarrow> init_matrix l_s l_t ! a ! b = (if b = 0 then a else b)"
  by (simp add: init_matrix_def less_Suc_eq_le del: upt_Suc)

lemma matrix_upto_init: "matrix_upto s t (Suc 0) (Suc 0) (init_matrix (length s) (length t))"
  unfolding matrix_upto_def
  by (auto simp: init_matrix_length init_matrix_row_length init_matrix_nth)

lemma matrix_upto_cell:
  assumes "matrix_upto s t i j m" and "Suc 0 \<le> i" "i \<le> length s" "Suc 0 \<le> j" "j \<le> length t"
  shows "matrix_upto s t i (Suc j) (cell_update s t i j m)"
proof -
  obtain i' j' where ij: "i = Suc i'" "j = Suc j'"
    using assms(2,4) by (cases i; cases j) auto
  have len: "length m = length s + 1"
    using assms(1) unfolding matrix_upto_def by blast
  have rows: "length (m ! a) = length t + 1" if "a \<le> length s" for a
    using assms(1) that unfolding matrix_upto_def by blast
  have cells: "m ! a ! b = cell_distance s t a b"
    if "a \<le> length s" "b \<le> length t" "a < i \<or> (a = i \<and> b < j) \<or> a = 0 \<or> b = 0" for a b
    using assms(1) that unfolding matrix_upto_def by blast
  have c1: "m ! i' ! j' = cell_distance s t i' j'"
    using cells[of i' j'] assms(3,5) ij by simp
  have c2: "m ! i' ! j = cell_distance s t i' j"
    using cells[of i' j] assms(3,5) ij by simp
  have c3: "m ! i ! j' = cell_distance s t i j'"
    using cells[of i j'] assms(3,5) ij by simp
  define v where "v = cell_distance s t i j"
  have upd: "cell_update s t i j m = m[i := (m ! i)[j := v]]"
    using c1 c2 c3 ij by (simp add: cell_update_def v_def Let_def)
  show ?thesis
    unfolding matrix_upto_def upd
  proof (intro conjI allI impI)
    show "length (m[i := (m ! i)[j := v]]) = length s + 1" using len by simp
  next
    fix a assume "a \<le> length s"
    then show "length (m[i := (m ! i)[j := v]] ! a) = length t + 1"
      using rows[of a] len by (cases "a = i") simp_all
  next
    fix a b assume a: "a \<le> length s" and b: "b \<le> length t"
      and h: "a < i \<or> (a = i \<and> b < Suc j) \<or> a = 0 \<or> b = 0"
    show "m[i := (m ! i)[j := v]] ! a ! b = cell_distance s t a b"
    proof (cases "a = i \<and> b = j")
      case True
      then show ?thesis using len rows[of i] assms(3,5) by (simp add: v_def)
    next
      case False
      then have "a < i \<or> (a = i \<and> b < j) \<or> a = 0 \<or> b = 0" using h by auto
      then have "m ! a ! b = cell_distance s t a b" using cells[OF a b] by simp
      then show ?thesis using False len a by (cases "a = i") auto
    qed
  qed
qed

lemma matrix_upto_next_row:
  assumes "matrix_upto s t i (Suc (length t)) m"
  shows "matrix_upto s t (Suc i) (Suc 0) m"
  unfolding matrix_upto_def
proof (intro conjI allI impI)
  show "length m = length s + 1" using assms unfolding matrix_upto_def by blast
next
  fix a assume "a \<le> length s"
  then show "length (m ! a) = length t + 1" using assms unfolding matrix_upto_def by blast
next
  fix a b assume a: "a \<le> length s" and b: "b \<le> length t"
    and h: "a < Suc i \<or> (a = Suc i \<and> b < Suc 0) \<or> a = 0 \<or> b = 0"
  have "a < i \<or> (a = i \<and> b < Suc (length t)) \<or> a = 0 \<or> b = 0"
    using h b by auto
  then show "m ! a ! b = cell_distance s t a b"
    using assms a b unfolding matrix_upto_def by blast
qed

lemma matrix_upto_row:
  assumes "matrix_upto s t i (Suc 0) m" and "Suc 0 \<le> i" "i \<le> length s"
  shows "matrix_upto s t (Suc i) (Suc 0) (row_update s t i m)"
proof -
  have "matrix_upto s t i (Suc (length t)) (fold (cell_update s t i) [Suc 0..<Suc (length t)] m)"
  proof (rule fold_upt_invariant[where P = "\<lambda>j. matrix_upto s t i j"])
    show "Suc 0 \<le> Suc (length t)" by simp
    show "matrix_upto s t i (Suc 0) m" by (rule assms(1))
    show "matrix_upto s t i (Suc k) (cell_update s t i k y)"
      if "Suc 0 \<le> k" "k < Suc (length t)" "matrix_upto s t i k y" for k y
      using that assms(2,3) by (intro matrix_upto_cell) simp_all
  qed
  then show ?thesis
    by (simp add: row_update_def matrix_upto_next_row)
qed

lemma levenshtein_matrix_final:
  "matrix_upto s t (Suc (length s)) (Suc 0) (levenshtein_matrix s t)"
proof -
  have "matrix_upto s t (Suc (length s)) (Suc 0)
          (fold (row_update s t) [Suc 0..<Suc (length s)] (init_matrix (length s) (length t)))"
  proof (rule fold_upt_invariant[where P = "\<lambda>i. matrix_upto s t i (Suc 0)"])
    show "Suc 0 \<le> Suc (length s)" by simp
    show "matrix_upto s t (Suc 0) (Suc 0) (init_matrix (length s) (length t))"
      by (rule matrix_upto_init)
    show "matrix_upto s t (Suc k) (Suc 0) (row_update s t k y)"
      if "Suc 0 \<le> k" "k < Suc (length s)" "matrix_upto s t k (Suc 0) y" for k y
      using that by (intro matrix_upto_row) simp_all
  qed
  then show ?thesis by (simp add: levenshtein_matrix_def)
qed

lemma levenshtein_matrix_corner:
  "levenshtein_matrix s t ! length s ! length t = cell_distance s t (length s) (length t)"
  using levenshtein_matrix_final[of s t] unfolding matrix_upto_def by simp

lemma cell_distance_le_max: "cell_distance s t i j \<le> max i j"
  by (induction s t i j rule: cell_distance.induct) (auto simp: min_def max_def)

lemma cell_distance_zero_iff:
  "i \<le> length s \<Longrightarrow> j \<le> length t \<Longrightarrow> cell_distance s t i j = 0 \<longleftrightarrow> take i s = take j t"
proof (induction s t i j rule: cell_distance.induct)
  case (1 s t j)
  then show ?case by auto
next
  case (2 s t i)
  then show ?case by auto
next
  case (3 s t i j)
  have eq: "take (Suc i) s = take (Suc j) t \<longleftrightarrow> take i s = take j t \<and> s ! i = t ! j"
    using 3(4,5) by (auto simp: take_Suc_conv_app_nth)
  have "cell_distance s t (Suc i) (Suc j) = 0 \<longleftrightarrow> cell_distance s t i j = 0 \<and> s ! i = t ! j"
    by (auto simp: min_def)
  then show ?case using 3 eq by auto
qed

text \<open>
  Claim C9. For two strings that are not both empty, \<open>levenshtein_norm\<close> returns a
  value (it raises nothing), the value lies in the closed interval from 0 to 1, and it is
  1 exactly when the two strings are equal.
\<close>

theorem levenshtein_norm_range:
  assumes "source \<noteq> [] \<or> target \<noteq> []"
  shows "\<exists>v. levenshtein_norm source target = Inr v \<and> 0 \<le> v \<and> v \<le> 1 \<and>
             (v = 1 \<longleftrightarrow> source = target)"
proof -
  let ?d = "cell_distance source target (length source) (length target)"
  let ?n = "max (length source) (length target)"
  have pos: "0 < ?n" using assms by (auto simp: less_max_iff_disj)
  have le: "?d \<le> ?n" by (rule cell_distance_le_max)
  have z: "?d = 0 \<longleftrightarrow> source = target"
    using cell_distance_zero_iff[of "length source" source "length target" target] by simp
  have v: "levenshtein_norm source target = Inr (1 - real ?d / real ?n)"
    using assms by (auto simp: levenshtein_norm_def Let_def levenshtein_matrix_corner)
  have "0 \<le> 1 - real ?d / real ?n" using le pos by (simp add: field_simps)
  moreover have "1 - real ?d / real ?n \<le> 1" using pos by simp
  moreover have "1 - real ?d / real ?n = 1 \<longleftrightarrow> source = target"
  proof -
    have "1 - real ?d / real ?n = 1 \<longleftrightarrow> ?d = 0"
      using assms by auto
    then show ?thesis using z by simp
  qed
  ultimately show ?thesis using v by blast
qed

lemma levenshtein_norm_example: "levenshtein_norm ''ab'' ''ac'' = Inr (1 / 2)"
  by (simp add: levenshtein_norm_def levenshtein_matrix_def row_update_def cell_update_def
      init_matrix_def Let_def upt_rec)

theorem levenshtein_norm_range_witness:
  "''ab'' \<noteq> [] \<and>
   levenshtein_norm ''ab'' ''ac'' = Inr (1 / 2) \<and>
   (\<exists>v. levenshtein_norm ''ab'' ''ac'' = Inr v \<and> 0 \<le> v \<and> v \<le> 1 \<and>
        (v = 1 \<longleftrightarrow> ''ab'' = ''ac''))"
  using levenshtein_norm_range [of "''ab''" "''ac''"] levenshtein_norm_example by simp

section \<open>step_varpos: an empty collection\<close>

lemma varpos_loop_exhausted:
  "current_index argv = ndata argv \<Longrightarrow> varpos_loop E args val arg argv acc cnt = (Inr acc, argv)"
  by simp

text \<open>
  Claim C4, as the code has it. When the loop of \<open>step_varpos\<close> ends with nothing
  collected, the declared default is looked at first: if there is one, the argument is
  bound to its items as a tuple (to the empty tuple when the default is not iterable),
  whatever the flag; without a default the flag \<open>*\<close> binds the empty tuple and any other
  flag (that is \<open>+\<close>) raises \<open>ArgumentMissing\<close>.
\<close>

theorem step_varpos_empty:
  assumes "varpos_loop E args (fst slot) (snd slot)
             (argv\<lparr>argv_context := CtxArg (arg_name (snd slot))\<rparr>) [] 0 = (Inr [], argv1)"
  shows "step_varpos E argv args slot result =
           (case arg_default (snd slot) of
              Some d \<Rightarrow>
                (Inr (dict_set (arg_name (snd slot))
                        (VTuple (case iter_items d of Some xs \<Rightarrow> xs | None \<Rightarrow> [])) result), argv1)
            | None \<Rightarrow>
                if mv_flag (fst slot) = ''*''
                then (Inr (dict_set (arg_name (snd slot)) (VTuple []) result), argv1)
                else (Inl (ArgumentMissing (arg_name (snd slot))), argv1))"
  using assms by (simp add: step_varpos_def Let_def)

theorem step_varpos_empty_witness:
  "varpos_loop example_externals (Args [] [] [] [] None)
     \<lparr>mv_base = str_pattern, mv_flag = ''+'', mv_length = -1\<rparr>
     (example_arg ''rest'' str_pattern False None)
     ((example_argv [] [])\<lparr>argv_context := CtxArg ''rest''\<rparr>) [] 0
     = (Inr [], (example_argv [] [])\<lparr>argv_context := CtxArg ''rest''\<rparr>) \<and>
   step_varpos example_externals (example_argv [] []) (Args [] [] [] [] None)
     (\<lparr>mv_base = str_pattern, mv_flag = ''+'', mv_length = -1\<rparr>,
      example_arg ''rest'' str_pattern False None) []
     = (Inl (ArgumentMissing ''rest''), (example_argv [] [])\<lparr>argv_context := CtxArg ''rest''\<rparr>)"
proof -
  have loop: "varpos_loop example_externals (Args [] [] [] [] None)
     \<lparr>mv_base = str_pattern, mv_flag = ''+'', mv_length = -1\<rparr>
     (example_arg ''rest'' str_pattern False None)
     ((example_argv [] [])\<lparr>argv_context := CtxArg ''rest''\<rparr>) [] 0
     = (Inr [], (example_argv [] [])\<lparr>argv_context := CtxArg ''rest''\<rparr>)"
    by (simp add: example_argv_def)
  show ?thesis
    using loop
      step_varpos_empty [of example_externals "Args [] [] [] [] None"
        "(\<lparr>mv_base = str_pattern, mv_flag = ''+'', mv_length = -1\<rparr>,
          example_arg ''rest'' str_pattern False None)"
        "example_argv [] []" "(example_argv [] [])\<lparr>argv_context := CtxArg ''rest''\<rparr>" "[]"]
    by (simp add: example_arg_def)
qed

text \<open>
  The claim as worded fails: with the flag \<open>+\<close>, a declared default and no token left,
  nothing is collected and the default is bound; \<open>ArgumentMissing\<close> is not raised.
\<close>

theorem step_varpos_plus_with_default_counterexample:
  "mv_flag \<lparr>mv_base = str_pattern, mv_flag = ''+'', mv_length = -1\<rparr> = ''+'' \<and>
   varpos_loop example_externals (Args [] [] [] [] None)
     \<lparr>mv_base = str_pattern, mv_flag = ''+'', mv_length = -1\<rparr>
     (example_arg ''rest'' str_pattern False (Some (VTuple [VStr ''x''])))
     ((example_argv [VStr ''--flag''] [''--flag''])\<lparr>argv_context := CtxArg ''rest''\<rparr>) [] 0
     = (Inr [], (example_argv [VStr ''--flag''] [''--flag''])\<lparr>argv_context := CtxArg ''rest''\<rparr>) \<and>
   step_varpos example_externals (example_argv [VStr ''--flag''] [''--flag'']) (Args [] [] [] [] None)
     (\<lparr>mv_base = str_pattern, mv_flag = ''+'', mv_length = -1\<rparr>,
      example_arg ''rest'' str_pattern False (Some (VTuple [VStr ''x'']))) []
     = (Inr [(''rest'', VTuple [VStr ''x''])],
        (example_argv [VStr ''--flag''] [''--flag''])\<lparr>argv_context := CtxArg ''rest''\<rparr>)"
  by (simp add: step_varpos_def example_argv_def example_arg_def Let_def next_tok_def
      special_trigger_def dict_get_def in_param_ids_def rollback_def)

section \<open>analyse_args: the wildcard argument\<close>

lemma analyse_normal_append:
  "analyse_normal (pre @ xs) argv result =
     (case analyse_normal pre argv result of
        (Inr (Continue result1), argv1) \<Rightarrow> analyse_normal xs argv1 result1
      | other \<Rightarrow> other)"
proof (induction pre arbitrary: argv result)
  case Nil
  then show ?case by simp
next
  case (Cons a pre)
  obtain may_arg sf argv1 where nx:
    "next_tok (argv\<lparr>argv_context := CtxArg (arg_name a)\<rparr>) (Some (arg_separators a)) True
       = ((may_arg, sf), argv1)"
    by (metis surj_pair)
  show ?case
  proof (cases "special_trigger argv1 may_arg sf")
    case (Some k)
    then show ?thesis using nx by simp
  next
    case None
    show ?thesis
    proof (cases "in_param_ids argv1 may_arg sf \<and> arg_optional a")
      case True
      then show ?thesis using nx None by (simp add: Cons.IH)
    next
      case npid: False
      show ?thesis
      proof (cases "truthy may_arg")
        case False
        then show ?thesis using nx None npid
          by (cases "arg_default a") (auto simp: Cons.IH Let_def)
      next
        case tr: True
        show ?thesis
        proof (cases "pat_alias (arg_value a) = ''*''")
          case True
          then show ?thesis using nx None npid tr
            by (auto simp: Let_def split: prod.splits)
        next
          case False
          obtain e argv2 result2 where v:
            "validate_priv argv1 a (arg_value a) result may_arg sf = (e, argv2, result2)"
            by (metis surj_pair)
          show ?thesis using nx None npid tr False v
            by (cases e) (auto simp: Cons.IH)
        qed
      qed
    qed
  qed
qed

lemma analyse_normal_wildcard:
  assumes wf: "ndata argv = length (raw_data argv)" "current_index argv < ndata argv"
    and seps: "set (arg_separators arg) = set (separators argv)"
    and tok: "tok = raw_data argv ! current_index argv"
    and ok: "truthy tok" "special_trigger argv tok (is_str tok) = None"
      "\<not> (in_param_ids argv tok (is_str tok) \<and> arg_optional arg)"
    and wild: "pat_alias (arg_value arg) = ''*''"
  shows "analyse_normal (arg # rest) argv result =
           (Inr (Return (dict_set (arg_name arg)
                           (converter argv (drop (current_index argv) (raw_data argv))) result)),
            argv\<lparr>argv_context := CtxArg (arg_name arg), sep_pending := None,
                  current_index := ndata argv\<rparr>)"
proof -
  let ?a0 = "argv\<lparr>argv_context := CtxArg (arg_name arg)\<rparr>"
  let ?a1 = "?a0\<lparr>sep_pending := None, current_index := current_index argv + 1\<rparr>"
  have nx: "next_tok ?a0 (Some (arg_separators arg)) True = ((tok, is_str tok), ?a1)"
    using next_tok_whole[of ?a0 "arg_separators arg"] wf seps tok by simp
  have ne: "tok \<noteq> VStr []" "tok \<noteq> VNone" using ok(1) by auto
  have rb: "rollback ?a1 tok False = ?a0\<lparr>sep_pending := None\<rparr>"
    using ne by (simp add: rollback_def)
  have cut: "concat (map (\<lambda>tok. case tok of VStr s \<Rightarrow> [VStr s] | other \<Rightarrow> [other]) xs) = xs" for xs
    by (induction xs) (auto split: pyval.splits)
  have rel: "release (?a0\<lparr>sep_pending := None\<rparr>) (Some (arg_separators arg)) False =
               (drop (current_index argv) (raw_data argv),
                ?a0\<lparr>sep_pending := None, current_index := ndata argv\<rparr>)"
    using seps cut by (simp add: release_def Let_def cong: pyval.case_cong)
  have st: "special_trigger ?a1 tok (is_str tok) = None"
    using ok(2) special_trigger_cong[of ?a1 argv tok "is_str tok"] by simp
  have pid: "\<not> (in_param_ids ?a1 tok (is_str tok) \<and> arg_optional arg)"
    using ok(3) in_param_ids_cong[of ?a1 argv tok "is_str tok"] by simp
  show ?thesis
    using nx st pid ok(1) wild rb rel by (auto simp: Let_def)
qed

text \<open>
  Claim C7, as the code has it. A normal argument is reached by the loop after the
  arguments before it; its token is first tested against the special options and the
  parameter ids and for emptiness. When the token passes these tests (it is not empty, it
  triggers no special option, and it is not a parameter id while the argument is optional)
  and the pattern of the argument has the alias \<open>*\<close>, then all the remaining tokens, this
  one included, are bound to the argument through the converter, \<open>current_index\<close> becomes
  \<open>ndata\<close>, and \<open>analyse_args\<close> returns at once: the result does not depend on the normal
  arguments after it, nor on the unpack, var-positional, keyword-only and var-keyword
  slots, none of which is processed.
\<close>

theorem analyse_args_wildcard:
  assumes pre: "analyse_normal pre argv0 [] = (Inr (Continue result), argv)"
    and wf: "ndata argv = length (raw_data argv)" "current_index argv < ndata argv"
    and seps: "set (arg_separators arg) = set (separators argv)"
    and tok: "tok = raw_data argv ! current_index argv"
    and ok: "truthy tok" "special_trigger argv tok (is_str tok) = None"
      "\<not> (in_param_ids argv tok (is_str tok) \<and> arg_optional arg)"
    and wild: "pat_alias (arg_value arg) = ''*''"
  shows "analyse_args E argv0 (Args (pre @ arg # rest) kw vp vk up) =
           (Inr (dict_set (arg_name arg)
                   (converter argv (drop (current_index argv) (raw_data argv))) result),
            argv\<lparr>argv_context := CtxArg (arg_name arg), sep_pending := None,
                  current_index := ndata argv\<rparr>)"
  using pre analyse_normal_wildcard[OF wf seps tok ok wild, of rest result]
  by (simp add: analyse_normal_append)

theorem analyse_args_wildcard_witness:
  "analyse_normal [example_arg ''first'' str_pattern False None]
     (example_argv [VStr ''hello'', VStr ''a'', VObj 1] []) []
     = (Inr (Continue [(''first'', VStr ''hello'')]),
        (example_argv [VStr ''hello'', VStr ''a'', VObj 1] [])
          \<lparr>argv_context := CtxArg ''first'', current_index := 1\<rparr>) \<and>
   analyse_args example_externals (example_argv [VStr ''hello'', VStr ''a'', VObj 1] [])
     (Args ([example_arg ''first'' str_pattern False None] @
            example_arg ''rest'' all_param False None #
            [example_arg ''later'' int_pattern False None])
        []
        [(\<lparr>mv_base = str_pattern, mv_flag = ''+'', mv_length = -1\<rparr>,
          example_arg ''more'' str_pattern False None)]
        [] None)
     = (Inr [(''first'', VStr ''hello''), (''rest'', VList [VStr ''a'', VObj 1])],
        (example_argv [VStr ''hello'', VStr ''a'', VObj 1] [])
          \<lparr>argv_context := CtxArg ''rest'', current_index := 3\<rparr>)"
proof -
  let ?start = "example_argv [VStr ''hello'', VStr ''a'', VObj 1] []"
  let ?mid = "?start\<lparr>argv_context := CtxArg ''first'', current_index := 1\<rparr>"
  have pre: "analyse_normal [example_arg ''first'' str_pattern False None] ?start []
               = (Inr (Continue [(''first'', VStr ''hello'')]), ?mid)"
    by (simp add: example_argv_def example_arg_def str_pattern_def next_tok_def
        special_trigger_def dict_get_def in_param_ids_def validate_priv_def Let_def)
  have st: "special_trigger ?mid (VStr ''a'') True = None"
    by (simp add: special_trigger_def dict_get_def example_argv_def)
  have pid: "\<not> (in_param_ids ?mid (VStr ''a'') True \<and>
               arg_optional (example_arg ''rest'' all_param False None))"
    by (simp add: in_param_ids_def example_argv_def)
  have "analyse_args example_externals ?start
     (Args ([example_arg ''first'' str_pattern False None] @
            example_arg ''rest'' all_param False None #
            [example_arg ''later'' int_pattern False None])
        []
        [(\<lparr>mv_base = str_pattern, mv_flag = ''+'', mv_length = -1\<rparr>,
          example_arg ''more'' str_pattern False None)]
        [] None)
     = (Inr (dict_set (arg_name (example_arg ''rest'' all_param False None))
               (converter ?mid (drop (current_index ?mid) (raw_data ?mid)))
               [(''first'', VStr ''hello'')]),
        ?mid\<lparr>argv_context := CtxArg (arg_name (example_arg ''rest'' all_param False None)),
               sep_pending := None, current_index := ndata ?mid\<rparr>)"
  proof (rule analyse_args_wildcard [OF pre])
    show "ndata ?mid = length (raw_data ?mid)" by (simp add: example_argv_def)
    show "current_index ?mid < ndata ?mid" by (simp add: example_argv_def)
    show "set (arg_separators (example_arg ''rest'' all_param False None)) = set (separators ?mid)"
      by (simp add: example_argv_def example_arg_def)
    show "VStr ''a'' = raw_data ?mid ! current_index ?mid" by (simp add: example_argv_def)
    show "truthy (VStr ''a'')" by simp
    show "special_trigger ?mid (VStr ''a'') (is_str (VStr ''a'')) = None" using st by simp
    show "\<not> (in_param_ids ?mid (VStr ''a'') (is_str (VStr ''a'')) \<and>
               arg_optional (example_arg ''rest'' all_param False None))" using pid by simp
    show "pat_alias (arg_value (example_arg ''rest'' all_param False None)) = ''*''"
      by (simp add: example_arg_def all_param_def)
  qed
  then show ?thesis using pre by (simp add: example_argv_def example_arg_def)
qed

text \<open>
  The claim as worded fails: an optional wildcard argument whose token is a parameter id
  is skipped. Nothing is bound to it, \<open>current_index\<close> stays where it was, and the
  analysis goes on to the end of \<open>analyse_args\<close> (which resets the context).
\<close>

theorem analyse_args_wildcard_param_id_counterexample:
  "pat_alias (arg_value (example_arg ''rest'' all_param True None)) = ''*'' \<and>
   analyse_args example_externals (example_argv [VStr ''--flag'', VStr ''x''] [''--flag''])
     (Args [example_arg ''rest'' all_param True None] [] [] [] None)
     = (Inr [], example_argv [VStr ''--flag'', VStr ''x''] [''--flag'']) \<and>
   current_index (example_argv [VStr ''--flag'', VStr ''x''] [''--flag''])
     \<noteq> ndata (example_argv [VStr ''--flag'', VStr ''x''] [''--flag''])"
  by (simp add: example_argv_def example_arg_def all_param_def next_tok_def
      special_trigger_def dict_get_def in_param_ids_def rollback_def Let_def)

section \<open>handle_option: the count kind\<close>

lemma lstrip_dash_append:
  assumes "lstrip_dash al \<noteq> []"
  shows "lstrip_dash (al @ r) = lstrip_dash al @ r"
proof -
  have "\<not> (\<forall>x\<in>set al. x = CHR ''-'')"
    using assms by (auto simp: lstrip_dash_def dropWhile_eq_Nil_conv)
  then show ?thesis by (auto simp: lstrip_dash_def dropWhile_append)
qed

lemma startswith_append: "startswith s p \<longleftrightarrow> (\<exists>r. s = p @ r)"
  unfolding startswith_def
  by (metis append_eq_conv_conj append_take_drop_id)

lemma count_accepts_quotient_pos:
  assumes "count_accepts name al" and "lstrip_dash al \<noteq> []"
  shows "0 < length (lstrip_dash name) div length (lstrip_dash al)"
proof -
  obtain r where "name = al @ r" using assms(1) by (auto simp: count_accepts_def startswith_append)
  then have "length (lstrip_dash al) \<le> length (lstrip_dash name)"
    using lstrip_dash_append[OF assms(2)] by simp
  then show ?thesis using assms(2) by (simp add: div_greater_zero_iff)
qed

lemma count_match_find:
  assumes "\<forall>al \<in> set als. lstrip_dash al \<noteq> []"
  shows "count_match als name =
           Inr (map_option (\<lambda>al. length (lstrip_dash name) div length (lstrip_dash al))
                  (find (count_accepts name) als))"
  using assms by (induction als) (auto simp: count_accepts_def)

lemma dropWhile_concat_replicate:
  assumes "b \<noteq> []" and "\<not> P (hd b)"
  shows "dropWhile P (concat (replicate (Suc k) b)) = concat (replicate (Suc k) b)"
  using assms by (cases b) auto

lemma alias_repetition_accepted:
  assumes "alias_repetition al name k" and "lstrip_dash al \<noteq> []"
  shows "count_accepts name al \<and> length (lstrip_dash name) div length (lstrip_dash al) = k"
proof -
  let ?P = "\<lambda>c. c = CHR ''-''"
  let ?d = "takeWhile ?P al" and ?b = "lstrip_dash al"
  obtain j where k: "k = Suc j" using assms(1) by (cases k) (auto simp: alias_repetition_def)
  have name: "name = ?d @ concat (replicate (Suc j) ?b)"
    using assms(1) k by (simp add: alias_repetition_def)
  have al: "al = ?d @ ?b" by (simp add: lstrip_dash_def)
  have sw: "startswith name al"
    unfolding startswith_append
    by (rule exI[of _ "concat (replicate j ?b)"]) (use name al in \<open>simp\<close>)
  have hd: "\<not> ?P (hd ?b)"
    using assms(2) unfolding lstrip_dash_def by (rule hd_dropWhile)
  have "lstrip_dash name = dropWhile ?P (concat (replicate (Suc j) ?b))"
    unfolding name lstrip_dash_def
    by (auto simp: dropWhile_append dest: set_takeWhileD simp del: replicate.simps)
  also have "\<dots> = concat (replicate (Suc j) ?b)"
    using dropWhile_concat_replicate[OF assms(2), of ?P j] hd by simp
  finally have "length (lstrip_dash name) = Suc j * length ?b"
    by (simp add: length_concat sum_list_replicate)
  then show ?thesis using sw assms(2) k by (simp add: count_accepts_def)
qed

text \<open>
  Claim C6, as the code has it. For a count option that is not compact and takes no
  arguments, called without trigger on a string token, \<open>handle_option\<close> matches exactly
  when the token starts with one of the aliases and the length of the token without its
  leading dashes is a multiple of the length of that alias without its leading dashes;
  the recorded value is the quotient for the first such alias. A token that is the dashes
  of an alias followed by \<open>k\<close> repetitions of the rest of the alias passes this test with
  quotient \<open>k\<close>; the test does not look at the characters after the alias. (Aliases are taken
  to have a character other than a dash, without which the quotient divides by zero.)
\<close>

theorem handle_option_count:
  assumes wf: "ndata argv = length (raw_data argv)" "current_index argv < ndata argv"
    and seps: "set (opt_separators opt) = set (separators argv)"
    and tok: "raw_data argv ! current_index argv = VStr name"
    and kind: "act_type (opt_action opt) = 2" "\<not> opt_compact opt" "opt_nargs opt = 0"
    and bodies: "\<forall>al \<in> set (opt_aliases opt). lstrip_dash al \<noteq> []"
    and after: "argv1 = argv\<lparr>argv_context := CtxOption (opt_name opt), sep_pending := None,
                               current_index := current_index argv + 1\<rparr>"
  shows "handle_option E argv opt None =
           (case find (count_accepts name) (opt_aliases opt) of
              Some al \<Rightarrow>
                (Inr (opt_dest opt,
                      \<lparr>res_value = VInt (int (length (lstrip_dash name) div length (lstrip_dash al))),
                       res_args = []\<rparr>), argv1)
            | None \<Rightarrow> (Inl (option_name_error E argv1 opt (VStr name)), argv1)) \<and>
         (\<forall>al \<in> set (opt_aliases opt). \<forall>k. alias_repetition al name k \<longrightarrow>
            count_accepts name al \<and> length (lstrip_dash name) div length (lstrip_dash al) = k)"
proof
  let ?start = "argv\<lparr>argv_context := CtxOption (opt_name opt)\<rparr>"
  have nx: "next_tok ?start (Some (opt_separators opt)) True = ((VStr name, True), argv1)"
    using next_tok_whole[of ?start "opt_separators opt"] wf seps tok after by simp
  have cm: "count_match (opt_aliases opt) name =
              Inr (map_option (\<lambda>al. length (lstrip_dash name) div length (lstrip_dash al))
                     (find (count_accepts name) (opt_aliases opt)))"
    using bodies by (rule count_match_find)
  show "handle_option E argv opt None =
           (case find (count_accepts name) (opt_aliases opt) of
              Some al \<Rightarrow>
                (Inr (opt_dest opt,
                      \<lparr>res_value = VInt (int (length (lstrip_dash name) div length (lstrip_dash al))),
                       res_args = []\<rparr>), argv1)
            | None \<Rightarrow> (Inl (option_name_error E argv1 opt (VStr name)), argv1))"
  proof (cases "find (count_accepts name) (opt_aliases opt)")
    case None
    then show ?thesis using nx cm kind
      by (simp add: handle_option_def option_match_def Let_def)
  next
    case (Some al)
    then have "count_accepts name al" "al \<in> set (opt_aliases opt)"
      by (auto simp: find_Some_iff)
    then have "0 < length (lstrip_dash name) div length (lstrip_dash al)"
      using bodies by (auto intro: count_accepts_quotient_pos)
    then show ?thesis using nx cm kind Some
      by (simp add: handle_option_def option_match_def Let_def)
  qed
  show "\<forall>al \<in> set (opt_aliases opt). \<forall>k. alias_repetition al name k \<longrightarrow>
            count_accepts name al \<and> length (lstrip_dash name) div length (lstrip_dash al) = k"
    using bodies alias_repetition_accepted by blast
qed

theorem handle_option_count_witness:
  "alias_repetition ''-v'' ''-vvv'' 3 \<and>
   handle_option example_externals (example_argv [VStr ''-vvv''] []) (count_option ''-v'' [''-v'']) None
     = (Inr (''v'', \<lparr>res_value = VInt 3, res_args = []\<rparr>),
        (example_argv [VStr ''-vvv''] [])\<lparr>argv_context := CtxOption ''-v'', current_index := 1\<rparr>)"
proof -
  let ?stream = "example_argv [VStr ''-vvv''] []"
  let ?opt = "count_option ''-v'' [''-v'']"
  have rep: "alias_repetition ''-v'' ''-vvv'' 3"
    by (simp add: alias_repetition_def lstrip_dash_def numeral_3_eq_3)
  have found: "find (count_accepts ''-vvv'') (opt_aliases ?opt) = Some ''-v''"
    by (simp add: count_option_def count_accepts_def startswith_def lstrip_dash_def)
  have "handle_option example_externals ?stream ?opt None =
           (case find (count_accepts ''-vvv'') (opt_aliases ?opt) of
              Some al \<Rightarrow>
                (Inr (opt_dest ?opt,
                      \<lparr>res_value = VInt (int (length (lstrip_dash ''-vvv'') div length (lstrip_dash al))),
                       res_args = []\<rparr>),
                 ?stream\<lparr>argv_context := CtxOption (opt_name ?opt), sep_pending := None,
                          current_index := current_index ?stream + 1\<rparr>)
            | None \<Rightarrow>
                (Inl (option_name_error example_externals
                        (?stream\<lparr>argv_context := CtxOption (opt_name ?opt), sep_pending := None,
                                  current_index := current_index ?stream + 1\<rparr>) ?opt (VStr ''-vvv'')),
                 ?stream\<lparr>argv_context := CtxOption (opt_name ?opt), sep_pending := None,
                          current_index := current_index ?stream + 1\<rparr>))"
    by (rule handle_option_count [THEN conjunct1])
      (simp_all add: example_argv_def count_option_def lstrip_dash_def)
  then show ?thesis
    using rep found by (simp add: example_argv_def count_option_def lstrip_dash_def)
qed

text \<open>
  The claim as worded fails in its second half: the token \<open>-vab\<close> is not the alias \<open>-v\<close>
  repeated, yet it starts with the alias and has three characters after the dash, so it
  matches and is recorded with the value 3.
\<close>

theorem handle_option_count_counterexample:
  "handle_option example_externals (example_argv [VStr ''-vab''] []) (count_option ''-v'' [''-v'']) None
     = (Inr (''v'', \<lparr>res_value = VInt 3, res_args = []\<rparr>),
        (example_argv [VStr ''-vab''] [])\<lparr>argv_context := CtxOption ''-v'', current_index := 1\<rparr>) \<and>
   \<not> (\<exists>k. alias_repetition ''-v'' ''-vab'' k)"
proof
  show "handle_option example_externals (example_argv [VStr ''-vab''] []) (count_option ''-v'' [''-v'']) None
     = (Inr (''v'', \<lparr>res_value = VInt 3, res_args = []\<rparr>),
        (example_argv [VStr ''-vab''] [])\<lparr>argv_context := CtxOption ''-v'', current_index := 1\<rparr>)"
    by (simp add: handle_option_def option_match_def next_tok_def example_argv_def
        count_option_def startswith_def lstrip_dash_def Let_def)
  show "\<not> (\<exists>k. alias_repetition ''-v'' ''-vab'' k)"
  proof
    assume "\<exists>k. alias_repetition ''-v'' ''-vab'' k"
    then obtain k where "''vab'' = concat (replicate k ''v'')"
      by (auto simp: alias_repetition_def lstrip_dash_def)
    then have "set ''vab'' = set (concat (replicate k ''v''))" by simp
    moreover have "set (concat (replicate k ''v'')) \<subseteq> {CHR ''v''}" by auto
    ultimately show False by auto
  qed
qed

section \<open>analyse_option: merging the occurrences of an append option\<close>










section \<open>analyse_compact_params: speculation and restoring\<close>

lemma soft_failure_cases:
  "soft_failure (err, a1, v1) \<longleftrightarrow>
     (\<exists>msg. err = Some (InvalidParam msg)) \<and> \<not> is_arg_ctx (argv_context v1)"
  by (auto simp: soft_failure_def split: option.splits py_error.splits)

lemma compact_loop_soft_prefix:
  "soft_run E before (raw_data argv) (current_index argv) analyser argv = Some (a, v) \<Longrightarrow>
   raw_data v = raw_data argv \<and> current_index v = current_index argv \<and>
   compact_loop E (before @ rest) analyser argv = compact_loop E rest a v"
proof (induction before arbitrary: analyser argv)
  case Nil
  then show ?case by simp
next
  case (Cons p before)
  obtain err a1 v1 where att: "attempt_param E analyser argv p None = (err, a1, v1)"
    by (metis surj_pair)
  let ?v = "data_reset v1 (raw_data argv) (current_index argv)"
  have soft: "soft_failure (err, a1, v1)"
    using Cons.prems att by (auto split: if_splits)
  then obtain msg where e: "err = Some (InvalidParam msg)" and ctx: "\<not> is_arg_ctx (argv_context v1)"
    by (auto simp: soft_failure_cases)
  have same: "raw_data ?v = raw_data argv" "current_index ?v = current_index argv"
    by (simp_all add: data_reset_def)
  have run: "soft_run E before (raw_data ?v) (current_index ?v) a1 ?v = Some (a, v)"
    using Cons.prems att soft unfolding same by simp
  have step: "compact_loop E ((p # before) @ rest) analyser argv
                = compact_loop E (before @ rest) a1 ?v"
    using att e ctx by (simp add: data_set_def)
  show ?case
    using Cons.IH[OF run] unfolding step same by simp
qed

lemma compact_loop_decisive:
  assumes "\<not> soft_failure (attempt_param E a v p None)"
  shows "compact_loop E (p # after) a v =
           (case attempt_param E a v p None of
              (None, a1, v1) \<Rightarrow> (Inr True, a1, v1)
            | (Some e, a1, v1) \<Rightarrow> (Inl e, a1, v1))"
proof -
  obtain err a1 v1 where att: "attempt_param E a v p None = (err, a1, v1)"
    by (metis surj_pair)
  show ?thesis
  proof (cases err)
    case None
    then show ?thesis using att by (simp add: data_set_def)
  next
    case (Some e)
    then show ?thesis using att assms
      by (cases e) (auto simp: data_set_def soft_failure_cases)
  qed
qed

text \<open>
  Claim C3, as the code has it. Let the first candidates of \<open>compact_params\<close>, in their
  order, each fail softly: each raises \<open>InvalidParam\<close> outside the context of an \<open>Arg\<close>,
  attempted on the state the one before has left with the snapshot restored. Then the
  state \<open>(a, v)\<close> reached after them has the data view and the index of the entry. If no
  candidate is left, \<open>analyse_compact_params\<close> returns without a match in that state. If
  \<open>p\<close> is the next candidate and its attempt does not fail softly, the dispatch ends
  with this attempt, made on \<open>(a, v)\<close>: when it succeeds, the function returns true with
  the state the attempt has left, nothing being restored; when it raises, be it
  \<open>InvalidParam\<close> in the context of an \<open>Arg\<close> or another exception, the exception
  propagates with the state the attempt has left. In both cases no later candidate
  counts.
\<close>

theorem analyse_compact_params_first_decisive:
  assumes "compact_params analyser = before @ rest"
    and "soft_run E before (raw_data argv) (current_index argv) analyser argv = Some (a, v)"
  shows "raw_data v = raw_data argv \<and> current_index v = current_index argv \<and>
         (rest = [] \<longrightarrow> analyse_compact_params E analyser argv = (Inr False, a, v)) \<and>
         (\<forall>p after. rest = p # after \<longrightarrow> \<not> soft_failure (attempt_param E a v p None) \<longrightarrow>
            analyse_compact_params E analyser argv =
              (case attempt_param E a v p None of
                 (None, a1, v1) \<Rightarrow> (Inr True, a1, v1)
               | (Some e, a1, v1) \<Rightarrow> (Inl e, a1, v1)))"
proof -
  note pre = compact_loop_soft_prefix[OF assms(2), of rest]
  have loop: "analyse_compact_params E analyser argv = compact_loop E rest a v"
    unfolding analyse_compact_params_def assms(1) using pre by simp
  show ?thesis
  proof (intro conjI allI impI)
    show "raw_data v = raw_data argv" "current_index v = current_index argv"
      using pre by simp_all
    show "analyse_compact_params E analyser argv = (Inr False, a, v)" if "rest = []"
      unfolding loop that by simp
    show "analyse_compact_params E analyser argv =
            (case attempt_param E a v p None of
               (None, a1, v1) \<Rightarrow> (Inr True, a1, v1)
             | (Some e, a1, v1) \<Rightarrow> (Inl e, a1, v1))"
      if "rest = p # after" and "\<not> soft_failure (attempt_param E a v p None)" for p after
      unfolding loop that(1) using that(2) by (rule compact_loop_decisive)
  qed
qed

lemma compact_soft_attempt:
  "attempt_param example_externals (example_analyser [POption (compact_option ''-g'' []), POption (compact_option ''-fa'' [])] []) (example_argv [VStr ''-fabc''] []) (POption (compact_option ''-g'' [])) None
   = (Some (InvalidParam ''-fabc''), (example_analyser [POption (compact_option ''-g'' []), POption (compact_option ''-fa'' [])] []),
      (example_argv [VStr ''-fabc''] [])\<lparr>current_index := 1, argv_context := CtxOption ''-g''\<rparr>)"
  by (simp add: example_argv_def example_externals_def example_analyser_def example_arg_def
        compact_option_def int_pattern_eval handle_option_def option_match_def
        alias_match_def regex_literal_def soft_failure_def
        analyse_option_def merge_option_def attempt_param_def option_name_error_def
        analyse_compact_params_def
        next_tok_def rollback_def data_set_def data_reset_def validate_priv_def
        pattern_validate_def special_trigger_def in_param_ids_def dict_get_def
        startswith_def lstrip_dash_def Let_def)

lemma compact_commit_attempt:
  "attempt_param example_externals (example_analyser [POption (compact_option ''-g'' []), POption (compact_option ''-fa'' [])] [])
     ((example_argv [VStr ''-fabc''] [])\<lparr>argv_context := CtxOption ''-g''\<rparr>) (POption (compact_option ''-fa'' [])) None
   = (None, (example_analyser [POption (compact_option ''-g'' []), POption (compact_option ''-fa'' [])] [])\<lparr>options_result := [(''fa'', \<lparr>res_value = VNone, res_args = []\<rparr>)]\<rparr>,
      (example_argv [VStr ''-fabc''] [])\<lparr>raw_data := [VStr ''bc''], argv_context := CtxOption ''-fa''\<rparr>)"
  by (simp add: example_argv_def example_externals_def example_analyser_def example_arg_def
        compact_option_def int_pattern_eval handle_option_def option_match_def
        alias_match_def regex_literal_def soft_failure_def
        analyse_option_def merge_option_def attempt_param_def option_name_error_def
        analyse_compact_params_def
        next_tok_def rollback_def data_set_def data_reset_def validate_priv_def
        pattern_validate_def special_trigger_def in_param_ids_def dict_get_def
        startswith_def lstrip_dash_def Let_def)

lemma compact_arg_attempt:
  "attempt_param example_externals (example_analyser [POption (compact_option ''-f'' [example_arg ''n'' int_pattern False None]), POption (compact_option ''-fa'' [])] []) (example_argv [VStr ''-fabc''] []) (POption (compact_option ''-f'' [example_arg ''n'' int_pattern False None])) None
   = (Some (InvalidParam ''abc''), (example_analyser [POption (compact_option ''-f'' [example_arg ''n'' int_pattern False None]), POption (compact_option ''-fa'' [])] []),
      (example_argv [VStr ''-fabc''] [])\<lparr>raw_data := [VStr ''abc''], argv_context := CtxArg ''n''\<rparr>)"
  by (simp add: example_argv_def example_externals_def example_analyser_def example_arg_def
        compact_option_def int_pattern_eval handle_option_def option_match_def
        alias_match_def regex_literal_def soft_failure_def
        analyse_option_def merge_option_def attempt_param_def option_name_error_def
        analyse_compact_params_def
        next_tok_def rollback_def data_set_def data_reset_def validate_priv_def
        pattern_validate_def special_trigger_def in_param_ids_def dict_get_def
        startswith_def lstrip_dash_def Let_def)

theorem analyse_compact_params_first_decisive_witness:
  "soft_run example_externals [POption (compact_option ''-g'' [])] [VStr ''-fabc''] 0 (example_analyser [POption (compact_option ''-g'' []), POption (compact_option ''-fa'' [])] []) (example_argv [VStr ''-fabc''] [])
     = Some ((example_analyser [POption (compact_option ''-g'' []), POption (compact_option ''-fa'' [])] []), (example_argv [VStr ''-fabc''] [])\<lparr>argv_context := CtxOption ''-g''\<rparr>) \<and>
   analyse_compact_params example_externals (example_analyser [POption (compact_option ''-g'' []), POption (compact_option ''-fa'' [])] []) (example_argv [VStr ''-fabc''] [])
     = (Inr True,
        (example_analyser [POption (compact_option ''-g'' []), POption (compact_option ''-fa'' [])] [])\<lparr>options_result := [(''fa'', \<lparr>res_value = VNone, res_args = []\<rparr>)]\<rparr>,
        (example_argv [VStr ''-fabc''] [])\<lparr>raw_data := [VStr ''bc''], argv_context := CtxOption ''-fa''\<rparr>) \<and>
   analyse_compact_params example_externals (example_analyser [POption (compact_option ''-g'' [])] []) (example_argv [VStr ''-fabc''] [])
     = (Inr False, (example_analyser [POption (compact_option ''-g'' [])] []), (example_argv [VStr ''-fabc''] [])\<lparr>argv_context := CtxOption ''-g''\<rparr>) \<and>
   analyse_compact_params example_externals (example_analyser [POption (compact_option ''-f'' [example_arg ''n'' int_pattern False None]), POption (compact_option ''-fa'' [])] []) (example_argv [VStr ''-fabc''] [])
     = (Inl (InvalidParam ''abc''), (example_analyser [POption (compact_option ''-f'' [example_arg ''n'' int_pattern False None]), POption (compact_option ''-fa'' [])] []),
        (example_argv [VStr ''-fabc''] [])\<lparr>raw_data := [VStr ''abc''], argv_context := CtxArg ''n''\<rparr>)"
proof -
  have rd: "raw_data (example_argv [VStr ''-fabc''] []) = [VStr ''-fabc'']" "current_index (example_argv [VStr ''-fabc''] []) = 0"
    by (simp_all add: example_argv_def)
  have run1: "soft_run example_externals [POption (compact_option ''-g'' [])] (raw_data (example_argv [VStr ''-fabc''] [])) (current_index (example_argv [VStr ''-fabc''] []))
                (example_analyser [POption (compact_option ''-g'' []), POption (compact_option ''-fa'' [])] []) (example_argv [VStr ''-fabc''] [])
              = Some ((example_analyser [POption (compact_option ''-g'' []), POption (compact_option ''-fa'' [])] []), (example_argv [VStr ''-fabc''] [])\<lparr>argv_context := CtxOption ''-g''\<rparr>)"
    unfolding rd by (simp add: compact_soft_attempt soft_failure_def) (simp add: data_reset_def example_argv_def)
  have run3: "soft_run example_externals [POption (compact_option ''-g'' [])] (raw_data (example_argv [VStr ''-fabc''] [])) (current_index (example_argv [VStr ''-fabc''] []))
                (example_analyser [POption (compact_option ''-g'' [])] []) (example_argv [VStr ''-fabc''] [])
              = Some ((example_analyser [POption (compact_option ''-g'' [])] []), (example_argv [VStr ''-fabc''] [])\<lparr>argv_context := CtxOption ''-g''\<rparr>)"
    unfolding rd
    by (simp add: example_argv_def example_externals_def example_analyser_def example_arg_def
        compact_option_def int_pattern_eval handle_option_def option_match_def
        alias_match_def regex_literal_def soft_failure_def
        analyse_option_def merge_option_def attempt_param_def option_name_error_def
        analyse_compact_params_def
        next_tok_def rollback_def data_set_def data_reset_def validate_priv_def
        pattern_validate_def special_trigger_def in_param_ids_def dict_get_def
        startswith_def lstrip_dash_def Let_def)
  have run2: "soft_run example_externals [] (raw_data (example_argv [VStr ''-fabc''] [])) (current_index (example_argv [VStr ''-fabc''] [])) (example_analyser [POption (compact_option ''-f'' [example_arg ''n'' int_pattern False None]), POption (compact_option ''-fa'' [])] []) (example_argv [VStr ''-fabc''] [])
              = Some ((example_analyser [POption (compact_option ''-f'' [example_arg ''n'' int_pattern False None]), POption (compact_option ''-fa'' [])] []), (example_argv [VStr ''-fabc''] []))"
    by simp
  have cp1: "compact_params (example_analyser [POption (compact_option ''-g'' []), POption (compact_option ''-fa'' [])] []) = [POption (compact_option ''-g'' [])] @ [POption (compact_option ''-fa'' [])]"
    by (simp add: example_analyser_def)
  have cp3: "compact_params (example_analyser [POption (compact_option ''-g'' [])] []) = [POption (compact_option ''-g'' [])] @ []"
    by (simp add: example_analyser_def)
  have cp2: "compact_params (example_analyser [POption (compact_option ''-f'' [example_arg ''n'' int_pattern False None]), POption (compact_option ''-fa'' [])] []) = [] @ [POption (compact_option ''-f'' [example_arg ''n'' int_pattern False None]), POption (compact_option ''-fa'' [])]"
    by (simp add: example_analyser_def)
  have one: "analyse_compact_params example_externals (example_analyser [POption (compact_option ''-g'' []), POption (compact_option ''-fa'' [])] []) (example_argv [VStr ''-fabc''] [])
     = (Inr True,
        (example_analyser [POption (compact_option ''-g'' []), POption (compact_option ''-fa'' [])] [])\<lparr>options_result := [(''fa'', \<lparr>res_value = VNone, res_args = []\<rparr>)]\<rparr>,
        (example_argv [VStr ''-fabc''] [])\<lparr>raw_data := [VStr ''bc''], argv_context := CtxOption ''-fa''\<rparr>)"
    using analyse_compact_params_first_decisive [OF cp1 run1]
    by (simp add: compact_commit_attempt soft_failure_def)
  have three: "analyse_compact_params example_externals (example_analyser [POption (compact_option ''-g'' [])] []) (example_argv [VStr ''-fabc''] [])
     = (Inr False, (example_analyser [POption (compact_option ''-g'' [])] []), (example_argv [VStr ''-fabc''] [])\<lparr>argv_context := CtxOption ''-g''\<rparr>)"
    using analyse_compact_params_first_decisive [OF cp3 run3] by simp
  have two: "analyse_compact_params example_externals (example_analyser [POption (compact_option ''-f'' [example_arg ''n'' int_pattern False None]), POption (compact_option ''-fa'' [])] []) (example_argv [VStr ''-fabc''] [])
     = (Inl (InvalidParam ''abc''), (example_analyser [POption (compact_option ''-f'' [example_arg ''n'' int_pattern False None]), POption (compact_option ''-fa'' [])] []),
        (example_argv [VStr ''-fabc''] [])\<lparr>raw_data := [VStr ''abc''], argv_context := CtxArg ''n''\<rparr>)"
    using analyse_compact_params_first_decisive [OF cp2 run2]
    by (simp add: compact_arg_attempt soft_failure_def)
  show ?thesis
    using run1 one two three unfolding rd by simp
qed

text \<open>
  The claim as worded fails: the first candidate \<open>-f\<close> matches the token \<open>-fabc\<close> and
  fails on its argument \<open>abc\<close>, so \<open>InvalidParam\<close> is raised in the context of an \<open>Arg\<close>. It
  propagates: the data view stays as the attempt left it (\<open>abc\<close> in the slot), and the
  second candidate \<open>-fa\<close>, which succeeds on the restored snapshot, is never attempted.
\<close>

theorem analyse_compact_params_restore_counterexample:
  "attempt_param example_externals
     (example_analyser
       [POption (compact_option ''-f'' [example_arg ''n'' int_pattern False None]),
        POption (compact_option ''-fa'' [])] []) (example_argv [VStr ''-fabc''] [])
     (POption (compact_option ''-f'' [example_arg ''n'' int_pattern False None])) None
   = (Some (InvalidParam ''abc''), example_analyser
       [POption (compact_option ''-f'' [example_arg ''n'' int_pattern False None]),
        POption (compact_option ''-fa'' [])] [],
      (example_argv [VStr ''-fabc''] [])
        \<lparr>raw_data := [VStr ''abc''], argv_context := CtxArg ''n''\<rparr>) \<and>
   analyse_compact_params example_externals
     (example_analyser
       [POption (compact_option ''-f'' [example_arg ''n'' int_pattern False None]),
        POption (compact_option ''-fa'' [])] []) (example_argv [VStr ''-fabc''] [])
   = (Inl (InvalidParam ''abc''), example_analyser
       [POption (compact_option ''-f'' [example_arg ''n'' int_pattern False None]),
        POption (compact_option ''-fa'' [])] [],
      (example_argv [VStr ''-fabc''] [])
        \<lparr>raw_data := [VStr ''abc''], argv_context := CtxArg ''n''\<rparr>) \<and>
   attempt_param example_externals
     (example_analyser
       [POption (compact_option ''-f'' [example_arg ''n'' int_pattern False None]),
        POption (compact_option ''-fa'' [])] [])
     (data_reset
        ((example_argv [VStr ''-fabc''] [])\<lparr>raw_data := [VStr ''abc''], argv_context := CtxArg ''n''\<rparr>)
        [VStr ''-fabc''] 0)
     (POption (compact_option ''-fa'' [])) None
   = (None,
      (example_analyser
       [POption (compact_option ''-f'' [example_arg ''n'' int_pattern False None]),
        POption (compact_option ''-fa'' [])] [])\<lparr>options_result := [(''fa'', \<lparr>res_value = VNone, res_args = []\<rparr>)]\<rparr>,
      (example_argv [VStr ''-fabc''] [])
        \<lparr>raw_data := [VStr ''bc''], argv_context := CtxOption ''-fa''\<rparr>)"
  by (simp add: example_argv_def example_externals_def example_analyser_def example_arg_def
        compact_option_def int_pattern_eval handle_option_def option_match_def
        alias_match_def regex_literal_def soft_failure_def
        analyse_option_def merge_option_def attempt_param_def option_name_error_def
        analyse_compact_params_def
        next_tok_def rollback_def data_set_def data_reset_def validate_priv_def
        pattern_validate_def special_trigger_def in_param_ids_def dict_get_def
        startswith_def lstrip_dash_def Let_def)

section \<open>analyse_param: a count option, compact and repeated\<close>

text \<open>
  Claim C2. A count option with the alias \<open>-v\<close>, the count action of value 1 and no
  arguments, registered in the dispatch table under its alias and among the compact
  parameters (where a count option is tried on a token that is not in the table). On the
  input \<open>-vvv\<close> one step of the dispatch consumes the token and records the value 3; on
  the input \<open>-v -v -v\<close> three steps consume the three tokens and leave the same options
  result, with the value 3.
\<close>

theorem count_compact_equals_repeated:
  assumes opt: "opt_aliases opt = [''-v'']" "act_type (opt_action opt) = 2"
      "act_value (opt_action opt) = VInt 1" "opt_nargs opt = 0" "\<not> opt_compact opt"
      "set (opt_separators opt) = set (separators argv)"
    and table: "dict_get (compile_params analyser) ''-v'' = Some (POption opt)"
      "dict_get (compile_params analyser) ''-vvv'' = None"
      "compact_params analyser = [POption opt]"
    and fresh: "dict_get (options_result analyser) (opt_dest opt) = None"
    and special: "dict_get (special argv) ''-v'' = None" "dict_get (special argv) ''-vvv'' = None"
  shows "\<exists>a v a1 v1 a2 v2 a3 v3.
           analyse_param E analyser (build argv [VStr ''-vvv'']) None = (Inr True, a, v) \<and>
           current_index v = ndata v \<and>
           dict_get (options_result a) (opt_dest opt) = Some \<lparr>res_value = VInt 3, res_args = []\<rparr> \<and>
           analyse_param E analyser (build argv [VStr ''-v'', VStr ''-v'', VStr ''-v'']) None
             = (Inr True, a1, v1) \<and>
           analyse_param E a1 v1 None = (Inr True, a2, v2) \<and>
           analyse_param E a2 v2 None = (Inr True, a3, v3) \<and>
           current_index v3 = ndata v3 \<and>
           options_result a3 = options_result a"
proof -
  let ?r = "\<lambda>n. \<lparr>res_value = VInt n, res_args = []\<rparr>"
  let ?an = "\<lambda>n. analyser\<lparr>options_result := dict_set (opt_dest opt) (?r n) (options_result analyser)\<rparr>"
  have cm: "count_match [''-v''] ''-vvv'' = Inr (Some 3)"
    by (simp add: startswith_def lstrip_dash_def)
  have set_get: "dict_get (dict_set k x d) k = Some x" for k and x :: OptionResult and d
    by (induction d) (auto simp: dict_get_def)
  have set_set: "dict_set k x (dict_set k y d) = dict_set k x d" for k and x y :: OptionResult and d
    by (induction d) auto
  have one: "analyse_param E analyser (build argv [VStr ''-vvv'']) None
      = (Inr True, ?an 3,
         (build argv [VStr ''-vvv''])\<lparr>current_index := 1, argv_context := CtxNone\<rparr>)"
    using opt table fresh special cm
    by (simp add: analyse_param_def build_def next_tok_def special_trigger_def rollback_def
        analyse_compact_params_def data_set_def attempt_param_def analyse_option_def
        handle_option_def option_match_def merge_option_def Let_def)
  let ?v = "\<lambda>i. (build argv [VStr ''-v'', VStr ''-v'', VStr ''-v''])
                 \<lparr>current_index := i, argv_context := CtxNone\<rparr>"
  have s1: "analyse_param E analyser (build argv [VStr ''-v'', VStr ''-v'', VStr ''-v'']) None
      = (Inr True, ?an 1, ?v 1)"
    using opt table fresh special
    by (simp add: analyse_param_def build_def next_tok_def special_trigger_def
        attempt_param_def analyse_option_def handle_option_def merge_option_def Let_def)
  have s2: "analyse_param E (?an 1) (?v 1) None = (Inr True, ?an 2, ?v 2)"
    using opt table special
    by (simp add: analyse_param_def build_def next_tok_def special_trigger_def
        attempt_param_def analyse_option_def handle_option_def merge_option_def
        handle_action_def set_get set_set Let_def)
  have s3: "analyse_param E (?an 2) (?v 2) None = (Inr True, ?an 3, ?v 3)"
    using opt table special
    by (simp add: analyse_param_def build_def next_tok_def special_trigger_def
        attempt_param_def analyse_option_def handle_option_def merge_option_def
        handle_action_def set_get set_set Let_def)
  show ?thesis
    using one s1 s2 s3 by (simp add: set_get build_def)
qed

theorem count_compact_equals_repeated_witness:
  "\<exists>a v a1 v1 a2 v2 a3 v3.
     analyse_param example_externals
       (example_analyser [POption (count_option ''-v'' [''-v''])] [(''-v'', POption (count_option ''-v'' [''-v'']))])
       (build (example_argv [] []) [VStr ''-vvv'']) None = (Inr True, a, v) \<and>
     current_index v = ndata v \<and>
     dict_get (options_result a) ''v'' = Some \<lparr>res_value = VInt 3, res_args = []\<rparr> \<and>
     analyse_param example_externals
       (example_analyser [POption (count_option ''-v'' [''-v''])] [(''-v'', POption (count_option ''-v'' [''-v'']))])
       (build (example_argv [] []) [VStr ''-v'', VStr ''-v'', VStr ''-v'']) None
       = (Inr True, a1, v1) \<and>
     analyse_param example_externals a1 v1 None = (Inr True, a2, v2) \<and>
     analyse_param example_externals a2 v2 None = (Inr True, a3, v3) \<and>
     current_index v3 = ndata v3 \<and>
     options_result a3 = options_result a"
proof -
  have dest: "opt_dest (count_option ''-v'' [''-v'']) = ''v''"
    by (simp add: count_option_def lstrip_dash_def)
  show ?thesis
    using count_compact_equals_repeated [where E = example_externals
        and opt = "count_option ''-v'' [''-v'']"
        and analyser = "example_analyser [POption (count_option ''-v'' [''-v''])] [(''-v'', POption (count_option ''-v'' [''-v'']))]"
        and argv = "example_argv [] []"]
    unfolding dest
    by (simp add: count_option_def example_analyser_def example_argv_def dict_get_def)
qed

section \<open>analyse_header: the failure path and the fuzzy suggestion\<close>

lemma fuzzy_loop_find:
  "fuzzy_loop E source threshold hts =
     map_option (\<lambda>ht. FuzzyMatchSuccess ht source)
       (find (\<lambda>ht. threshold \<le> levenshtein E source ht) hts)"
  by (induction hts) auto

text \<open>
  Claim C5, as the code has it. The first token is a string \<open>head\<close> and no header variant
  has matched it. The header texts \<open>hts\<close> are: the command alone when the header has no
  prefix; otherwise one text for each prefix, in the order of the prefixes, the prefix
  followed by the command, with a blank between the two parts of a pair and after a prefix
  that is not a string. If fuzzy matching is on and some header text has a similarity to
  the input head that reaches the threshold, \<open>analyse_header\<close> raises \<open>FuzzyMatchSuccess\<close>
  for the first such header text, with \<open>source\<close> the header text and \<open>target\<close> the input
  head; otherwise it raises \<open>InvalidParam\<close>. So \<open>FuzzyMatchSuccess\<close> is raised exactly when
  fuzzy matching is on and some header text reaches the threshold, never for an input below
  the threshold against every header text. In both cases the second token has been put
  back.
\<close>

theorem analyse_header_failure:
  assumes "header_match header argv = (NoMatch (VStr head) True may_cmd m_str, argv1)"
    and "argv2 = rollback argv1 may_cmd False"
    and "hts = (if h_prefixes header = [] then [h_command header]
                else map (\<lambda>p. case p of
                            PrefixPair obj s \<Rightarrow> py_str obj @ '' '' @ s @ h_command header
                          | PrefixStr s \<Rightarrow> s @ h_command header
                          | PrefixObj obj \<Rightarrow> py_str obj @ '' '' @ h_command header)
                       (h_prefixes header))"
  shows "analyse_header E header argv =
           (Inl (case (if fuzzy_match argv2
                       then find (\<lambda>ht. fuzzy_threshold argv2 \<le> levenshtein E head ht) hts
                       else None) of
                   Some ht \<Rightarrow> FuzzyMatchSuccess ht head
                 | None \<Rightarrow> InvalidParam head), argv2) \<and>
         ((\<exists>ht. fst (analyse_header E header argv) = Inl (FuzzyMatchSuccess ht head)) \<longleftrightarrow>
            fuzzy_match argv2 \<and>
            (\<exists>ht \<in> set hts. fuzzy_threshold argv2 \<le> levenshtein E head ht)) \<and>
         ((\<forall>ht \<in> set hts. levenshtein E head ht < fuzzy_threshold argv2) \<longrightarrow>
            fst (analyse_header E header argv) = Inl (InvalidParam head))"
proof -
  let ?P = "\<lambda>ht. fuzzy_threshold argv2 \<le> levenshtein E head ht"
  let ?found = "(if fuzzy_match argv2 then find ?P hts else None)"
  have hts: "headers_text header = hts"
    unfolding assms(3) by (simp add: headers_text_def)
  define w where "w = (if fuzzy_match argv2
             then handle_fuzzy E header head (fuzzy_threshold argv2) else None)"
  have hf: "w = map_option (\<lambda>ht. FuzzyMatchSuccess ht head) ?found"
    by (simp add: w_def handle_fuzzy_def fuzzy_loop_find hts)
  have ah: "analyse_header E header argv =
              (case w of Some e \<Rightarrow> (Inl e, argv2) | None \<Rightarrow> (Inl (InvalidParam head), argv2))"
    unfolding w_def assms(2)
    by (simp add: analyse_header_def assms(1) Let_def split: option.splits)
  have res: "analyse_header E header argv =
           (Inl (case ?found of Some ht \<Rightarrow> FuzzyMatchSuccess ht head | None \<Rightarrow> InvalidParam head), argv2)"
    unfolding ah hf by (cases ?found) simp_all
  have iff: "(\<exists>ht. ?found = Some ht) \<longleftrightarrow>
               fuzzy_match argv2 \<and> (\<exists>ht \<in> set hts. ?P ht)"
  proof (cases "fuzzy_match argv2")
    case False
    then show ?thesis by simp
  next
    case True
    have "(\<exists>ht. find ?P hts = Some ht) \<longleftrightarrow> find ?P hts \<noteq> None" by auto
    also have "\<dots> \<longleftrightarrow> (\<exists>ht \<in> set hts. ?P ht)"
      unfolding find_None_iff by blast
    finally show ?thesis using True by simp
  qed
  have none: "?found = None"
    if "\<forall>ht \<in> set hts. levenshtein E head ht < fuzzy_threshold argv2"
  proof -
    have "find ?P hts = None"
      unfolding find_None_iff using that by force
    then show ?thesis by simp
  qed
  show ?thesis
  proof (intro conjI)
    show "analyse_header E header argv =
           (Inl (case ?found of Some ht \<Rightarrow> FuzzyMatchSuccess ht head | None \<Rightarrow> InvalidParam head), argv2)"
      by (rule res)
    show "(\<exists>ht. fst (analyse_header E header argv) = Inl (FuzzyMatchSuccess ht head)) \<longleftrightarrow>
            fuzzy_match argv2 \<and> (\<exists>ht \<in> set hts. ?P ht)"
      unfolding iff[symmetric] res by (cases ?found) simp_all
    show "(\<forall>ht \<in> set hts. levenshtein E head ht < fuzzy_threshold argv2) \<longrightarrow>
            fst (analyse_header E header argv) = Inl (InvalidParam head)"
    proof
      assume "\<forall>ht \<in> set hts. levenshtein E head ht < fuzzy_threshold argv2"
      then have "?found = None" by (rule none)
      then show "fst (analyse_header E header argv) = Inl (InvalidParam head)"
        unfolding res by simp
    qed
  qed
qed

lemma similarity_first_prefix: "levenshtein fuzzy_externals ''!hii'' ''/hi'' = 1 / 2"
  by (simp add: fuzzy_externals_def levenshtein_norm_def levenshtein_matrix_def row_update_def
      cell_update_def init_matrix_def Let_def upt_rec)

lemma similarity_second_prefix: "levenshtein fuzzy_externals ''!hii'' ''!hi'' = 3 / 4"
  by (simp add: fuzzy_externals_def levenshtein_norm_def levenshtein_matrix_def row_update_def
      cell_update_def init_matrix_def Let_def upt_rec)

lemma similarity_far:
  "levenshtein fuzzy_externals ''xyz'' ''/hi'' = 0"
  "levenshtein fuzzy_externals ''xyz'' ''!hi'' = 0"
  by (simp_all add: fuzzy_externals_def levenshtein_norm_def levenshtein_matrix_def
      row_update_def cell_update_def init_matrix_def Let_def upt_rec)

theorem analyse_header_failure_witness:
  "analyse_header fuzzy_externals (prefixed_header ''hi'' [''/'', ''!''])
     ((example_argv [VStr ''!hii''] [])\<lparr>fuzzy_match := True\<rparr>)
   = (Inl (FuzzyMatchSuccess ''!hi'' ''!hii''),
      (example_argv [VStr ''!hii''] [])\<lparr>fuzzy_match := True, current_index := 1\<rparr>) \<and>
   analyse_header fuzzy_externals (prefixed_header ''hi'' [''/'', ''!''])
     ((example_argv [VStr ''xyz''] [])\<lparr>fuzzy_match := True\<rparr>)
   = (Inl (InvalidParam ''xyz''),
      (example_argv [VStr ''xyz''] [])\<lparr>fuzzy_match := True, current_index := 1\<rparr>)"
proof -
  have m: "header_match (prefixed_header ''hi'' [''/'', ''!''])
             ((example_argv [VStr w] [])\<lparr>fuzzy_match := True\<rparr>)
        = (NoMatch (VStr w) True (VStr []) True,
           (example_argv [VStr w] [])\<lparr>fuzzy_match := True, current_index := 1\<rparr>)"
    if "w \<noteq> ''/hi''" and "w \<noteq> ''!hi''" for w
    using that
    by (simp add: header_match_def header_pattern_def header_second_def prefixed_header_def
        example_argv_def next_tok_def Let_def)
  have r: "(example_argv [VStr w] [])\<lparr>fuzzy_match := True, current_index := 1\<rparr>
        = rollback ((example_argv [VStr w] [])\<lparr>fuzzy_match := True, current_index := 1\<rparr>)
            (VStr []) False" for w
    by (simp add: rollback_def)
  have ht: "(if h_prefixes (prefixed_header ''hi'' [''/'', ''!'']) = []
             then [h_command (prefixed_header ''hi'' [''/'', ''!''])]
             else map (\<lambda>p. case p of
                         PrefixPair obj s \<Rightarrow>
                           py_str obj @ '' '' @ s @ h_command (prefixed_header ''hi'' [''/'', ''!''])
                       | PrefixStr s \<Rightarrow> s @ h_command (prefixed_header ''hi'' [''/'', ''!''])
                       | PrefixObj obj \<Rightarrow>
                           py_str obj @ '' '' @ h_command (prefixed_header ''hi'' [''/'', ''!'']))
                    (h_prefixes (prefixed_header ''hi'' [''/'', ''!''])))
            = [''/hi'', ''!hi'']"
    by (simp add: prefixed_header_def)
  have th: "fuzzy_threshold (example_argv [VStr w] []) = 6 / 10" for w
    by (simp add: example_argv_def)
  have one: "analyse_header fuzzy_externals (prefixed_header ''hi'' [''/'', ''!''])
     ((example_argv [VStr ''!hii''] [])\<lparr>fuzzy_match := True\<rparr>)
   = (Inl (FuzzyMatchSuccess ''!hi'' ''!hii''),
      (example_argv [VStr ''!hii''] [])\<lparr>fuzzy_match := True, current_index := 1\<rparr>)"
    using analyse_header_failure [OF m r ht [symmetric], of "''!hii''" fuzzy_externals, THEN conjunct1]
    by (simp add: th similarity_first_prefix similarity_second_prefix)
  have two: "analyse_header fuzzy_externals (prefixed_header ''hi'' [''/'', ''!''])
     ((example_argv [VStr ''xyz''] [])\<lparr>fuzzy_match := True\<rparr>)
   = (Inl (InvalidParam ''xyz''),
      (example_argv [VStr ''xyz''] [])\<lparr>fuzzy_match := True, current_index := 1\<rparr>)"
    using analyse_header_failure [OF m r ht [symmetric], of "''xyz''" fuzzy_externals, THEN conjunct1]
    by (simp add: th similarity_far)
  show ?thesis using one two by simp
qed

text \<open>
  The claim as worded fails on the roles: for the header \<open>hi\<close> and the input \<open>hii\<close>, whose
  similarity \<open>2/3\<close> reaches the threshold \<open>0.6\<close>, the exception is built with \<open>source\<close> the
  header text \<open>hi\<close> and \<open>target\<close> the input \<open>hii\<close>, not with \<open>source\<close> the input and
  \<open>target\<close> the header.
\<close>

theorem analyse_header_roles_counterexample:
  "levenshtein fuzzy_externals ''hii'' ''hi'' = 2 / 3 \<and>
   fuzzy_threshold ((example_argv [VStr ''hii''] [])\<lparr>fuzzy_match := True\<rparr>) = 6 / 10 \<and>
   analyse_header fuzzy_externals (plain_header ''hi'')
     ((example_argv [VStr ''hii''] [])\<lparr>fuzzy_match := True\<rparr>)
   = (Inl (FuzzyMatchSuccess ''hi'' ''hii''),
      (example_argv [VStr ''hii''] [])\<lparr>fuzzy_match := True, current_index := 1\<rparr>) \<and>
   fst (analyse_header fuzzy_externals (plain_header ''hi'')
          ((example_argv [VStr ''hii''] [])\<lparr>fuzzy_match := True\<rparr>))
   \<noteq> Inl (FuzzyMatchSuccess ''hii'' ''hi'')"
  by (simp add: analyse_header_def header_match_def header_pattern_def header_second_def
      handle_fuzzy_def headers_text_def plain_header_def example_argv_def next_tok_def
      rollback_def fuzzy_externals_def example_externals_def levenshtein_norm_def
      levenshtein_matrix_def row_update_def cell_update_def init_matrix_def Let_def upt_rec)

section \<open>_handle_shortcut_reg: a captured text with braces\<close>

text \<open>
  Claim C8 at a concrete rewrite. The shortcut unit \<open>say:{0}\<close> is rewritten with the first
  capture group holding the text \<open>{x}\<close>, no named group, and a wrapper that gives nothing.
  The loop over the indexed slots pastes the captured text, which gives \<open>say:{x}\<close>; the
  loop over the named slots then scans the rewritten unit, takes the pasted text for a
  slot of the missing group \<open>x\<close> and erases it. The token produced is \<open>say:\<close>: the slot of
  an existing group has not been substituted by its captured text. The unit \<open>{0}\<close> alone
  takes the other path of the function and does produce the captured text.
\<close>

theorem handle_shortcut_reg_rescans_captured_text:
  "handle_shortcut_reg (\<lambda>s. s) (\<lambda>s. s) (example_argv [VStr ''say:{0}''] [])
     [Some ''{x}''] [] (\<lambda>slot captured. VNone) = [VStr ''say:''] \<and>
   handle_shortcut_reg (\<lambda>s. s) (\<lambda>s. s) (example_argv [VStr ''{0}''] [])
     [Some ''{x}''] [] (\<lambda>slot captured. VNone) = [VStr ''{x}'']"
  by (simp add: handle_shortcut_reg_def shortcut_reg_unit_def example_argv_def
      slot_fullmatch_def digit_char_def word_char_def int_of_digits_def str_of_nat_def
      slot_text_def wrapped_def startswith_def Let_def)

end
